theory Spec2Isabelle
  imports Complex_Main "HOL-Library.Word"
begin

section \<open>The per-connection echo context of EchoContext.c\<close>

text \<open>
  The file embeds \<^verbatim>\<open>src/EchoContext.c\<close>: the reference-counted context, its creation,
  its open, close and release paths, the stream and timer event handlers and the callbacks
  that dispatch to them.

  Pointers are addresses into an explicit store; \<open>None\<close> is \<^verbatim>\<open>NULL\<close>. A function of the
  source becomes a function from the world before the call to either a fault (where C
  dereferences \<^verbatim>\<open>NULL\<close> or freed memory, or an \<^verbatim>\<open>assert\<close> fails) or the world after it.

  CoreFoundation is not part of the repository. What its calls do to the objects the reactor
  owns is recorded in a trace of calls, in the order the source makes them. What a call
  answers comes from outside: the answers are the fields of the records \<open>io\<close> (one record
  for each event the reactor delivers), \<open>create_io\<close> and \<open>open_io\<close>.

  \<^verbatim>\<open>EchoContextOpen\<close> hands \<^verbatim>\<open>EchoContextRetain\<close> and \<^verbatim>\<open>EchoContextRelease\<close> to both streams
  and to the timer as the retain and release callbacks of their client. The reactor calls
  the first when the client or the timer is installed and the second when the client is
  removed or the timer invalidated. These calls back into the file are part of the
  embedding: each is made at the call of CoreFoundation that causes it.
\<close>

subsection \<open>Types\<close>

type_synonym UInt8 = "8 word"
type_synonym UInt32 = "32 word"

text \<open>\<^verbatim>\<open>CFIndex\<close> is a signed long. Every value of that type in the file is a byte count of
  a buffer in memory, so no operation on it wraps, and it is an \<open>int\<close>.\<close>

type_synonym CFIndex = int

text \<open>\<^verbatim>\<open>CFAbsoluteTime\<close> and \<^verbatim>\<open>CFTimeInterval\<close> are doubles counting seconds. The only
  operation of the file on them is \<^verbatim>\<open>now + kTimeOutInSeconds\<close>; it is taken over the reals,
  without the rounding of the machine addition.\<close>

type_synonym CFAbsoluteTime = real
type_synonym CFTimeInterval = real

type_synonym addr = nat
type_synonym CFAllocatorRef = nat
type_synonym CFReadStreamRef = nat
type_synonym CFWriteStreamRef = nat
type_synonym CFRunLoopTimerRef = nat
type_synonym CFSocketNativeHandle = int

text \<open>\<^verbatim>\<open>EchoContextRef\<close> is a pointer to the context: \<open>None\<close> is \<^verbatim>\<open>NULL\<close>.\<close>

type_synonym EchoContextRef = "addr option"

text \<open>The struct \<^verbatim>\<open>EchoContext\<close> (the fields without their leading underscore). The
  receive buffer is a \<^verbatim>\<open>CFMutableData\<close> that only the context holds: the field carries its
  bytes, and \<open>None\<close> is the \<^verbatim>\<open>NULL\<close> reference.\<close>

record EchoContext =
  alloc :: "CFAllocatorRef option"
  retainCount :: UInt32
  timer :: "CFRunLoopTimerRef option"
  inStream :: "CFReadStreamRef option"
  outStream :: "CFWriteStreamRef option"
  rcvdBytes :: "UInt8 list option"

datatype CFTypeRef =
    Allocator CFAllocatorRef
  | ReadStream CFReadStreamRef
  | WriteStream CFWriteStreamRef
  | RunLoopTimer CFRunLoopTimerRef
  | MutableData addr

text \<open>The trace: the CoreFoundation calls that change an object of the reactor, and the
  attempts to write (\<open>CFWriteStreamWriteCall\<close>, with the bytes offered and the count the
  stream answered).
  \<open>CFReadStreamSetClient s b\<close> and \<open>CFWriteStreamSetClient s b\<close> install (\<open>b\<close> true) or
  remove (\<open>b\<close> false, the call with a \<^verbatim>\<open>NULL\<close> callback) the client of the stream.
  \<open>CFRunLoopTimerCreate t d\<close> is the creation of the timer \<open>t\<close> with the fire date \<open>d\<close>.
  \<open>MutableData p\<close> is the receive buffer of the context at \<open>p\<close>.
  A call that takes no effect is not recorded: the installation of a client, the opening
  of a stream and the creation of a timer leave an entry when they succeed.\<close>

datatype CFCall =
    CFRetain CFTypeRef
  | CFRelease CFTypeRef
  | CFAllocatorDeallocate "CFAllocatorRef option" addr
  | CFStreamCreatePairWithSocket "CFAllocatorRef option" CFSocketNativeHandle
      "CFReadStreamRef option" "CFWriteStreamRef option"
  | CFReadStreamSetProperty CFReadStreamRef
  | CFReadStreamSetClient CFReadStreamRef bool
  | CFReadStreamScheduleWithRunLoop CFReadStreamRef
  | CFReadStreamOpen CFReadStreamRef
  | CFReadStreamUnscheduleFromRunLoop CFReadStreamRef
  | CFReadStreamClose CFReadStreamRef
  | CFWriteStreamSetClient CFWriteStreamRef bool
  | CFWriteStreamScheduleWithRunLoop CFWriteStreamRef
  | CFWriteStreamOpen CFWriteStreamRef
  | CFWriteStreamUnscheduleFromRunLoop CFWriteStreamRef
  | CFWriteStreamClose CFWriteStreamRef
  | CFWriteStreamWriteCall CFWriteStreamRef "UInt8 list" CFIndex
  | CFRunLoopTimerCreate CFRunLoopTimerRef CFAbsoluteTime
  | CFRunLoopAddTimer CFRunLoopTimerRef
  | CFRunLoopTimerInvalidate CFRunLoopTimerRef
  | CFRunLoopTimerSetNextFireDate CFRunLoopTimerRef CFAbsoluteTime

text \<open>The world: the store of contexts, the bytes the peer has sent that no read has taken
  yet (\<open>inbound\<close>), the bytes the outbound channel has accepted so far (\<open>outbound\<close>), and the
  trace.\<close>

record world =
  heap :: "addr \<rightharpoonup> EchoContext"
  inbound :: "UInt8 list"
  outbound :: "UInt8 list"
  calls :: "CFCall list"

text \<open>What the reactor and the transport answer during one event: the clock, the number of
  bytes the transport has ready for a read (zero at the end of the stream, negative on an
  error), whether the outbound stream reports that it can accept bytes, and the number of
  bytes it can take in a write (zero when it is at capacity, negative on an error).\<close>

record io =
  io_now :: CFAbsoluteTime
  io_ready :: CFIndex
  io_canAccept :: bool
  io_avail :: CFIndex

datatype fault = NullDereference | UseAfterFree | AssertionFailed

datatype CFStreamEventType =
    kCFStreamEventNone
  | kCFStreamEventOpenCompleted
  | kCFStreamEventHasBytesAvailable
  | kCFStreamEventCanAcceptBytes
  | kCFStreamEventErrorOccurred
  | kCFStreamEventEndEncountered

subsection \<open>The store and the trace\<close>

definition store :: "addr \<Rightarrow> EchoContext \<Rightarrow> world \<Rightarrow> world" where
  "store p c w = w\<lparr>heap := (heap w)(p \<mapsto> c)\<rparr>"

definition emit :: "CFCall list \<Rightarrow> world \<Rightarrow> world" where
  "emit cs w = w\<lparr>calls := calls w @ cs\<rparr>"

text \<open>Reading through a context pointer.\<close>

definition deref :: "EchoContextRef \<Rightarrow> world \<Rightarrow> fault + (addr \<times> EchoContext)" where
  "deref context w =
     (case context of
        None \<Rightarrow> Inl NullDereference
      | Some p \<Rightarrow> (case heap w p of None \<Rightarrow> Inl UseAfterFree | Some c \<Rightarrow> Inr (p, c)))"

subsection \<open>Constants\<close>

definition kTimeOutInSeconds :: CFTimeInterval where
  "kTimeOutInSeconds = 60"

subsection \<open>The calls of CoreFoundation and of the C library that carry data\<close>

text \<open>\<^verbatim>\<open>memchr(s, c, n)\<close>: the offset of the first byte equal to \<open>c\<close> among the first \<open>n\<close>
  bytes of \<open>s\<close>, or \<^verbatim>\<open>NULL\<close>.\<close>

fun memchr :: "UInt8 list \<Rightarrow> UInt8 \<Rightarrow> nat \<Rightarrow> nat option" where
  "memchr [] c n = None"
| "memchr (x # xs) c 0 = None"
| "memchr (x # xs) c (Suc n) =
     (if x = c then Some 0 else map_option Suc (memchr xs c n))"

text \<open>\<^verbatim>\<open>CFDataAppendBytes\<close> and \<^verbatim>\<open>CFDataDeleteBytes\<close> on the bytes of a buffer; the range of
  the deletion is a location and a length.\<close>

definition CFDataAppendBytes :: "UInt8 list \<Rightarrow> UInt8 list \<Rightarrow> CFIndex \<Rightarrow> UInt8 list" where
  "CFDataAppendBytes d bytes len = d @ take (nat len) bytes"

definition CFDataDeleteBytes :: "UInt8 list \<Rightarrow> CFIndex \<Rightarrow> CFIndex \<Rightarrow> UInt8 list" where
  "CFDataDeleteBytes d loc len = take (nat loc) d @ drop (nat loc + nat len) d"

text \<open>Modelled from the spec: \<^verbatim>\<open>CFReadStreamRead\<close> is CoreFoundation's, not the
  repository's. A read is
  non-blocking and takes at most the chunk size from the front of the bytes the peer has sent:
  as many as the transport has ready. It answers the number of bytes it put into the buffer,
  \<open>0\<close> at the end of the stream and \<open>-1\<close> on an error.\<close>

definition CFReadStreamRead ::
  "CFReadStreamRef \<Rightarrow> nat \<Rightarrow> CFIndex \<Rightarrow> world \<Rightarrow> CFIndex \<times> UInt8 list \<times> world" where
  "CFReadStreamRead s bufferLength ready w =
     (if ready < 0 then (- 1, [], w)
      else
        let n = min (nat ready) (min bufferLength (length (inbound w)))
        in (int n, take n (inbound w), w\<lparr>inbound := drop n (inbound w)\<rparr>))"

text \<open>Modelled from the spec: \<^verbatim>\<open>CFWriteStreamWrite\<close> is CoreFoundation's, not the
  repository's. A write is
  non-blocking: the channel accepts a prefix of the bytes offered, as long as it has room
  for, and answers the length of that prefix; it answers \<open>0\<close> when it is at capacity and
  \<open>-1\<close> on an error, and accepts nothing then. The attempt is recorded in the trace.\<close>

definition CFWriteStreamWrite ::
  "CFWriteStreamRef \<Rightarrow> UInt8 list \<Rightarrow> CFIndex \<Rightarrow> world \<Rightarrow> CFIndex \<times> world" where
  "CFWriteStreamWrite s bytes room w =
     (let n = (if room < 0 then - 1 else min room (int (length bytes)))
      in (n, w\<lparr>outbound := outbound w @ take (nat n) bytes,
                calls := calls w @ [CFWriteStreamWriteCall s bytes n]\<rparr>))"

subsection \<open>The references the reactor holds\<close>

text \<open>Modelled from the spec: the reactor is CoreFoundation's, not the repository's. By
  section 6 of the spec a registration retains the context for its own lifetime and
  releases it when it is removed, and the same holds for the timer; by section 4.1, to
  unregister a callback causes the reactor to drop its retained reference. So a stream
  holds one reference to the context from the installation of its client to the removal of
  the client, and a timer from its creation to its invalidation. To remove the client of a
  stream that has none, or to invalidate a timer a second time, releases nothing.

  The objects that hold a reference are read off the trace. A stream that
  \<^verbatim>\<open>CFStreamCreatePairWithSocket\<close> has just made has no client. The context an object
  holds its reference to is the context that holds the object: the source installs a
  client and creates a timer in \<^verbatim>\<open>EchoContextOpen\<close> only, with the context that holds the
  stream or receives the timer as the info pointer.\<close>

fun reg_step :: "CFTypeRef list \<Rightarrow> CFCall \<Rightarrow> CFTypeRef list" where
  "reg_step rs (CFReadStreamSetClient s b) =
     (if b then List.insert (ReadStream s) rs else removeAll (ReadStream s) rs)"
| "reg_step rs (CFWriteStreamSetClient s b) =
     (if b then List.insert (WriteStream s) rs else removeAll (WriteStream s) rs)"
| "reg_step rs (CFRunLoopTimerCreate t d) = List.insert (RunLoopTimer t) rs"
| "reg_step rs (CFRunLoopTimerInvalidate t) = removeAll (RunLoopTimer t) rs"
| "reg_step rs (CFStreamCreatePairWithSocket a h i out) =
     (let rs1 = (case i of None \<Rightarrow> rs | Some s \<Rightarrow> removeAll (ReadStream s) rs)
      in case out of None \<Rightarrow> rs1 | Some s \<Rightarrow> removeAll (WriteStream s) rs1)"
| "reg_step rs _ = rs"

definition registrations :: "CFCall list \<Rightarrow> CFTypeRef list" where
  "registrations cs = foldl reg_step [] cs"

definition registered :: "CFTypeRef \<Rightarrow> world \<Rightarrow> bool" where
  "registered x w = (x \<in> set (registrations (calls w)))"

subsection \<open>Retain, close, release\<close>

text \<open>\<^verbatim>\<open>EchoContextRetain\<close>: bumps the count of a context that is not \<^verbatim>\<open>NULL\<close> and returns
  its argument. The count is a \<^verbatim>\<open>UInt32\<close>: the increment wraps.\<close>

definition EchoContextRetain :: "EchoContextRef \<Rightarrow> world \<Rightarrow> fault + (EchoContextRef \<times> world)" where
  "EchoContextRetain context w =
     (case context of
        None \<Rightarrow> Inr (context, w)
      | Some p \<Rightarrow>
          (case heap w p of
             None \<Rightarrow> Inl UseAfterFree
           | Some c \<Rightarrow> Inr (context, store p (c\<lparr>retainCount := retainCount c + 1\<rparr>) w)))"

text \<open>\<^verbatim>\<open>EchoContextClose\<close> and \<^verbatim>\<open>EchoContextRelease\<close> call each other: the release of
  the last reference closes, and the close, through the reactor, releases.

  \<^verbatim>\<open>EchoContextClose\<close> reads the fields of its argument without a test of the pointer.
  For each stream that exists: the client is removed, the stream is unscheduled, closed
  and released, and the field is set to \<^verbatim>\<open>NULL\<close>; then the same for the timer: invalidate,
  release, \<^verbatim>\<open>NULL\<close>. At the removal of the client and at the invalidation the reactor, when
  the object holds a reference, calls \<^verbatim>\<open>EchoContextRelease\<close> on the context. The source reads
  the field again for each call that follows: when that release was the last one, the
  context has been freed and the read is one of freed memory. When it was not the last, it
  has changed the count only, so the field still holds the stream or the timer it held
  before.

  \<^verbatim>\<open>EchoContextRelease\<close>: nothing on \<^verbatim>\<open>NULL\<close>. Otherwise the count is decremented (a
  \<^verbatim>\<open>UInt32\<close>: the decrement wraps) and, while it is above zero, the function returns. At
  zero: release the buffer if there is one, invalidate and release the timer if there is one
  (the field keeps its value; the invalidation, too, makes the reactor release the
  reference the timer holds), close, free the context, release the allocator.

  The recursion ends: the reactor calls \<^verbatim>\<open>EchoContextRelease\<close> only when an object that
  holds a reference loses it, and the trace leaves finitely many such objects.\<close>

function EchoContextClose :: "EchoContextRef \<Rightarrow> world \<Rightarrow> fault + world"
  and EchoContextRelease :: "EchoContextRef \<Rightarrow> world \<Rightarrow> fault + world" where
  "EchoContextClose context w =
     (case deref context w of
        Inl f \<Rightarrow> Inl f
      | Inr (p, c) \<Rightarrow>
          (case (case inStream c of
                   None \<Rightarrow> Inr w
                 | Some s \<Rightarrow>
                     (case (if registered (ReadStream s) w
                            then EchoContextRelease context (emit [CFReadStreamSetClient s False] w)
                            else Inr (emit [CFReadStreamSetClient s False] w)) of
                        Inl f \<Rightarrow> Inl f
                      | Inr wa \<Rightarrow>
                          (case deref context wa of
                             Inl f \<Rightarrow> Inl f
                           | Inr (pa, ca) \<Rightarrow>
                               Inr (store pa (ca\<lparr>inStream := None\<rparr>)
                                     (emit [CFReadStreamUnscheduleFromRunLoop s,
                                            CFReadStreamClose s,
                                            CFRelease (ReadStream s)] wa))))) of
             Inl f \<Rightarrow> Inl f
           | Inr w1 \<Rightarrow>
               (case deref context w1 of
                  Inl f \<Rightarrow> Inl f
                | Inr (p1, c1) \<Rightarrow>
                    (case (case outStream c1 of
                             None \<Rightarrow> Inr w1
                           | Some s \<Rightarrow>
                               (case (if registered (WriteStream s) w1
                                      then EchoContextRelease context
                                             (emit [CFWriteStreamSetClient s False] w1)
                                      else Inr (emit [CFWriteStreamSetClient s False] w1)) of
                                  Inl f \<Rightarrow> Inl f
                                | Inr wb \<Rightarrow>
                                    (case deref context wb of
                                       Inl f \<Rightarrow> Inl f
                                     | Inr (pb, cb) \<Rightarrow>
                                         Inr (store pb (cb\<lparr>outStream := None\<rparr>)
                                               (emit [CFWriteStreamUnscheduleFromRunLoop s,
                                                      CFWriteStreamClose s,
                                                      CFRelease (WriteStream s)] wb))))) of
                       Inl f \<Rightarrow> Inl f
                     | Inr w2 \<Rightarrow>
                         (case deref context w2 of
                            Inl f \<Rightarrow> Inl f
                          | Inr (p2, c2) \<Rightarrow>
                              (case timer c2 of
                                 None \<Rightarrow> Inr w2
                               | Some t \<Rightarrow>
                                   (case (if registered (RunLoopTimer t) w2
                                          then EchoContextRelease context
                                                 (emit [CFRunLoopTimerInvalidate t] w2)
                                          else Inr (emit [CFRunLoopTimerInvalidate t] w2)) of
                                      Inl f \<Rightarrow> Inl f
                                    | Inr wc \<Rightarrow>
                                        (case deref context wc of
                                           Inl f \<Rightarrow> Inl f
                                         | Inr (pc, cc) \<Rightarrow>
                                             Inr (store pc (cc\<lparr>timer := None\<rparr>)
                                                   (emit [CFRelease (RunLoopTimer t)] wc))))))))))"
| "EchoContextRelease context w =
     (case context of
        None \<Rightarrow> Inr w
      | Some p \<Rightarrow>
          (case heap w p of
             None \<Rightarrow> Inl UseAfterFree
           | Some c0 \<Rightarrow>
               let c = c0\<lparr>retainCount := retainCount c0 - 1\<rparr>;
                   w1 = store p c w
               in if retainCount c > 0 then Inr w1
                  else
                    let a = alloc c;
                        w2 = (case rcvdBytes c of
                                None \<Rightarrow> w1
                              | Some d \<Rightarrow> emit [CFRelease (MutableData p)] w1)
                    in (case (case timer c of
                                None \<Rightarrow> Inr w2
                              | Some t \<Rightarrow>
                                  (case (if registered (RunLoopTimer t) w2
                                         then EchoContextRelease context
                                                (emit [CFRunLoopTimerInvalidate t] w2)
                                         else Inr (emit [CFRunLoopTimerInvalidate t] w2)) of
                                     Inl f \<Rightarrow> Inl f
                                   | Inr wt \<Rightarrow>
                                       (case deref context wt of
                                          Inl f \<Rightarrow> Inl f
                                        | Inr (pt, ct) \<Rightarrow>
                                            Inr (emit [CFRelease (RunLoopTimer t)] wt)))) of
                          Inl f \<Rightarrow> Inl f
                        | Inr w3 \<Rightarrow>
                            (case EchoContextClose context w3 of
                               Inl f \<Rightarrow> Inl f
                             | Inr w4 \<Rightarrow>
                                 let w5 = emit [CFAllocatorDeallocate a p]
                                            (w4\<lparr>heap := (heap w4)(p := None)\<rparr>)
                                 in Inr (case a of
                                           None \<Rightarrow> w5
                                         | Some x \<Rightarrow> emit [CFRelease (Allocator x)] w5)))))"
  by pat_completeness auto

subsection \<open>Create\<close>

text \<open>What the allocator and CoreFoundation answer during \<^verbatim>\<open>EchoContextCreate\<close>: the address
  \<^verbatim>\<open>CFAllocatorAllocate\<close> returns (\<open>None\<close> when it fails), the two streams
  \<^verbatim>\<open>CFStreamCreatePairWithSocket\<close> stores (each \<open>None\<close> when it could not be made), and whether
  \<^verbatim>\<open>CFDataCreateMutable\<close> returns a buffer.\<close>

record create_io =
  cr_allocated :: "addr option"
  cr_inStream :: "CFReadStreamRef option"
  cr_outStream :: "CFWriteStreamRef option"
  cr_data :: bool

text \<open>\<^verbatim>\<open>EchoContextCreate\<close>. The \<^verbatim>\<open>do { ... } while (0)\<close> block is left by \<^verbatim>\<open>break\<close> at the
  first failure; each \<^verbatim>\<open>break\<close> goes to the release of the context and the return of
  \<^verbatim>\<open>NULL\<close>.\<close>

definition EchoContextCreate ::
  "CFAllocatorRef option \<Rightarrow> CFSocketNativeHandle \<Rightarrow> create_io \<Rightarrow> world
     \<Rightarrow> fault + (EchoContextRef \<times> world)" where
  "EchoContextCreate al nativeSocket r w =
     (let failed = (\<lambda>context w'.
            case EchoContextRelease context w' of
              Inl f \<Rightarrow> Inl f
            | Inr w'' \<Rightarrow> Inr (None, w''))
      in case cr_allocated r of
           None \<Rightarrow> failed None w
         | Some p \<Rightarrow>
             let c0 = \<lparr>alloc = None, retainCount = 0, timer = None, inStream = None,
                        outStream = None, rcvdBytes = None\<rparr>;
                 (c1, w1) = (case al of
                               None \<Rightarrow> (c0, store p c0 w)
                             | Some x \<Rightarrow>
                                 (c0\<lparr>alloc := al\<rparr>,
                                  emit [CFRetain (Allocator x)] (store p (c0\<lparr>alloc := al\<rparr>) w)))
             in (case EchoContextRetain (Some p) w1 of
                   Inl f \<Rightarrow> Inl f
                 | Inr (_, w2) \<Rightarrow>
                     (case heap w2 p of
                        None \<Rightarrow> Inl UseAfterFree
                      | Some c2 \<Rightarrow>
                          let c3 = c2\<lparr>inStream := cr_inStream r, outStream := cr_outStream r\<rparr>;
                              w3 = emit [CFStreamCreatePairWithSocket al nativeSocket
                                           (cr_inStream r) (cr_outStream r)] (store p c3 w2)
                          in (case (inStream c3, outStream c3) of
                                (Some i, Some out) \<Rightarrow>
                                  let w4 = emit [CFReadStreamSetProperty i] w3;
                                      c4 = c3\<lparr>rcvdBytes := (if cr_data r then Some [] else None)\<rparr>;
                                      w5 = store p c4 w4
                                  in if rcvdBytes c4 = None then failed (Some p) w5
                                     else Inr (Some p, w5)
                              | _ \<Rightarrow> failed (Some p) w3))))"

subsection \<open>Open\<close>

text \<open>What CoreFoundation answers during \<^verbatim>\<open>EchoContextOpen\<close>: whether each client could be
  set, whether each stream could be opened, the timer \<^verbatim>\<open>CFRunLoopTimerCreate\<close> returns
  (\<open>None\<close> when it fails) and the clock.\<close>

record open_io =
  op_setRead :: bool
  op_setWrite :: bool
  op_openRead :: bool
  op_openWrite :: bool
  op_timer :: "CFRunLoopTimerRef option"
  op_now :: CFAbsoluteTime

text \<open>\<^verbatim>\<open>EchoContextOpen\<close>. The \<^verbatim>\<open>do { ... } while (0)\<close> block is left by \<^verbatim>\<open>break\<close> at the
  first failure; each \<^verbatim>\<open>break\<close> goes to the close of the context and the return of
  \<^verbatim>\<open>FALSE\<close>. The reactor calls \<^verbatim>\<open>EchoContextRetain\<close> on the context when a client is
  installed and when the timer is created; when the stream has a client already, the
  reactor first releases the reference which that client holds. The timer that
  \<^verbatim>\<open>CFRunLoopTimerCreate\<close> returns is a new one; it is stored in the context when the call
  has returned, so after that call of the reactor. CoreFoundation does not accept a
  \<^verbatim>\<open>NULL\<close> stream: the call is a fault then.\<close>

definition EchoContextOpen :: "open_io \<Rightarrow> EchoContextRef \<Rightarrow> world \<Rightarrow> fault + (bool \<times> world)" where
  "EchoContextOpen r context w =
     (let failed = (\<lambda>w'.
            case EchoContextClose context w' of
              Inl f \<Rightarrow> Inl f
            | Inr w'' \<Rightarrow> Inr (False, w''));
          replaced = (\<lambda>x w'.
            if registered x w' then EchoContextRelease context w' else Inr w')
      in case deref context w of
           Inl f \<Rightarrow> Inl f
         | Inr (p, c) \<Rightarrow>
             (case inStream c of
                None \<Rightarrow> Inl NullDereference
              | Some i \<Rightarrow>
                  if \<not> op_setRead r then failed w
                  else
                    (case replaced (ReadStream i) w of
                       Inl f \<Rightarrow> Inl f
                     | Inr wa \<Rightarrow>
                         (case EchoContextRetain context
                                 (emit [CFReadStreamSetClient i True] wa) of
                            Inl f \<Rightarrow> Inl f
                          | Inr (_, w1) \<Rightarrow>
                              (case deref context w1 of
                                 Inl f \<Rightarrow> Inl f
                               | Inr (p1, c1) \<Rightarrow>
                                   (case outStream c1 of
                                      None \<Rightarrow> Inl NullDereference
                                    | Some out \<Rightarrow>
                                        if \<not> op_setWrite r then failed w1
                                        else
                                          (case replaced (WriteStream out) w1 of
                                             Inl f \<Rightarrow> Inl f
                                           | Inr wb \<Rightarrow>
                                               (case EchoContextRetain context
                                                       (emit [CFWriteStreamSetClient out True] wb) of
                                                  Inl f \<Rightarrow> Inl f
                                                | Inr (_, w2) \<Rightarrow>
                                                    let w3 = emit [CFReadStreamScheduleWithRunLoop i,
                                                                   CFWriteStreamScheduleWithRunLoop out] w2
                                                    in if \<not> op_openRead r then failed w3
                                                       else
                                                         let w4 = emit [CFReadStreamOpen i] w3
                                                         in if \<not> op_openWrite r then failed w4
                                                            else
                                                              let w5 = emit [CFWriteStreamOpen out] w4
                                                              in (case op_timer r of
                                                                    None \<Rightarrow>
                                                                      (case deref context w5 of
                                                                         Inl f \<Rightarrow> Inl f
                                                                       | Inr (p5, c5) \<Rightarrow>
                                                                           failed (store p5 (c5\<lparr>timer := None\<rparr>) w5))
                                                                  | Some t \<Rightarrow>
                                                                      (case EchoContextRetain context
                                                                              (emit [CFRunLoopTimerCreate t
                                                                                 (op_now r + kTimeOutInSeconds)] w5) of
                                                                         Inl f \<Rightarrow> Inl f
                                                                       | Inr (_, w6) \<Rightarrow>
                                                                           (case deref context w6 of
                                                                              Inl f \<Rightarrow> Inl f
                                                                            | Inr (p6, c6) \<Rightarrow>
                                                                                Inr (True,
                                                                                     emit [CFRunLoopAddTimer t]
                                                                                       (store p6 (c6\<lparr>timer := Some t\<rparr>) w6)))))))))))))"

subsection \<open>The event handlers\<close>

text \<open>\<^verbatim>\<open>_EchoContextHandleCanAcceptBytes\<close>, the flush. CoreFoundation's accessors do not
  accept a \<^verbatim>\<open>NULL\<close> buffer, timer or stream: the call is a fault then.\<close>

definition EchoContextHandleCanAcceptBytes :: "io \<Rightarrow> EchoContextRef \<Rightarrow> world \<Rightarrow> fault + world" where
  "EchoContextHandleCanAcceptBytes e context w =
     (case deref context w of
        Inl f \<Rightarrow> Inl f
      | Inr (p, c) \<Rightarrow>
          (case rcvdBytes c of
             None \<Rightarrow> Inl NullDereference
           | Some start \<Rightarrow>
               let lf = memchr start 10 (length start)
               in (case timer c of
                     None \<Rightarrow> Inl NullDereference
                   | Some t \<Rightarrow>
                       let w1 = emit [CFRunLoopTimerSetNextFireDate t
                                        (io_now e + kTimeOutInSeconds)] w
                       in (case lf of
                             None \<Rightarrow> Inr w1
                           | Some k \<Rightarrow>
                               (case outStream c of
                                  None \<Rightarrow> Inl NullDereference
                                | Some out \<Rightarrow>
                                    let (bytesWritten, w2) =
                                          CFWriteStreamWrite out (take (k + 1) start)
                                            (io_avail e) w1
                                    in if bytesWritten > 0
                                       then Inr (store p
                                              (c\<lparr>rcvdBytes :=
                                                   Some (CFDataDeleteBytes start 0 bytesWritten)\<rparr>)
                                              w2)
                                       else Inr w2)))))"

text \<open>\<^verbatim>\<open>_EchoContextHandleHasBytesAvailable\<close>: one read of at most 2048 bytes, the reset of
  the timer, and, when the read has put bytes into the local buffer, their addition to the
  receive buffer and a flush if the outbound stream says it can accept bytes.\<close>

definition EchoContextHandleHasBytesAvailable :: "io \<Rightarrow> EchoContextRef \<Rightarrow> world \<Rightarrow> fault + world" where
  "EchoContextHandleHasBytesAvailable e context w =
     (case deref context w of
        Inl f \<Rightarrow> Inl f
      | Inr (p, c) \<Rightarrow>
          (case inStream c of
             None \<Rightarrow> Inl NullDereference
           | Some s \<Rightarrow>
               let (bytesRead, buffer, w1) = CFReadStreamRead s 2048 (io_ready e) w
               in (case timer c of
                     None \<Rightarrow> Inl NullDereference
                   | Some t \<Rightarrow>
                       let w2 = emit [CFRunLoopTimerSetNextFireDate t
                                        (io_now e + kTimeOutInSeconds)] w1
                       in if bytesRead > 0
                          then
                            (case rcvdBytes c of
                               None \<Rightarrow> Inl NullDereference
                             | Some d \<Rightarrow>
                                 let w3 = store p
                                            (c\<lparr>rcvdBytes :=
                                                 Some (CFDataAppendBytes d buffer bytesRead)\<rparr>) w2
                                 in (case outStream c of
                                       None \<Rightarrow> Inl NullDereference
                                     | Some out \<Rightarrow>
                                         if io_canAccept e
                                         then EchoContextHandleCanAcceptBytes e context w3
                                         else Inr w3))
                          else Inr w2)))"

text \<open>\<^verbatim>\<open>_EchoContextHandleEndEncountered\<close> and \<^verbatim>\<open>_EchoContextHandleTimeOut\<close>: close, then
  release. \<^verbatim>\<open>_EchoContextHandleErrorOccurred\<close>: release.\<close>

definition EchoContextHandleEndEncountered :: "EchoContextRef \<Rightarrow> world \<Rightarrow> fault + world" where
  "EchoContextHandleEndEncountered context w =
     (case EchoContextClose context w of
        Inl f \<Rightarrow> Inl f
      | Inr w1 \<Rightarrow> EchoContextRelease context w1)"

definition EchoContextHandleErrorOccurred :: "EchoContextRef \<Rightarrow> world \<Rightarrow> fault + world" where
  "EchoContextHandleErrorOccurred context w = EchoContextRelease context w"

definition EchoContextHandleTimeOut :: "EchoContextRef \<Rightarrow> world \<Rightarrow> fault + world" where
  "EchoContextHandleTimeOut context w =
     (case EchoContextClose context w of
        Inl f \<Rightarrow> Inl f
      | Inr w1 \<Rightarrow> EchoContextRelease context w1)"

subsection \<open>The callbacks\<close>

text \<open>Each callback asserts that the object that delivers the event is the one the context
  holds, and dispatches on the kind of the event; a kind it does not know is ignored.\<close>

definition ReadStreamCallBack ::
  "CFReadStreamRef option \<Rightarrow> CFStreamEventType \<Rightarrow> io \<Rightarrow> EchoContextRef \<Rightarrow> world \<Rightarrow> fault + world" where
  "ReadStreamCallBack s type e context w =
     (case deref context w of
        Inl f \<Rightarrow> Inl f
      | Inr (p, c) \<Rightarrow>
          if s \<noteq> inStream c then Inl AssertionFailed
          else (case type of
                  kCFStreamEventHasBytesAvailable \<Rightarrow> EchoContextHandleHasBytesAvailable e context w
                | kCFStreamEventEndEncountered \<Rightarrow> EchoContextHandleEndEncountered context w
                | kCFStreamEventErrorOccurred \<Rightarrow> EchoContextHandleErrorOccurred context w
                | _ \<Rightarrow> Inr w))"

definition WriteStreamCallBack ::
  "CFWriteStreamRef option \<Rightarrow> CFStreamEventType \<Rightarrow> io \<Rightarrow> EchoContextRef \<Rightarrow> world \<Rightarrow> fault + world" where
  "WriteStreamCallBack s type e context w =
     (case deref context w of
        Inl f \<Rightarrow> Inl f
      | Inr (p, c) \<Rightarrow>
          if s \<noteq> outStream c then Inl AssertionFailed
          else (case type of
                  kCFStreamEventCanAcceptBytes \<Rightarrow> EchoContextHandleCanAcceptBytes e context w
                | kCFStreamEventErrorOccurred \<Rightarrow> EchoContextHandleErrorOccurred context w
                | _ \<Rightarrow> Inr w))"

definition TimerCallBack :: "CFRunLoopTimerRef option \<Rightarrow> EchoContextRef \<Rightarrow> world \<Rightarrow> fault + world" where
  "TimerCallBack t context w =
     (case deref context w of
        Inl f \<Rightarrow> Inl f
      | Inr (p, c) \<Rightarrow>
          if t \<noteq> timer c then Inl AssertionFailed
          else EchoContextHandleTimeOut context w)"

subsection \<open>Running the two data events\<close>

text \<open>The reactor delivers the events of one connection one after the other. A run of the
  two events that move data stops at the first fault.\<close>

datatype event = HasBytesAvailable io | CanAcceptBytes io

fun run :: "EchoContextRef \<Rightarrow> event list \<Rightarrow> world \<Rightarrow> fault + world" where
  "run context [] w = Inr w"
| "run context (ev # evs) w =
     (case (case ev of
              HasBytesAvailable e \<Rightarrow> EchoContextHandleHasBytesAvailable e context w
            | CanAcceptBytes e \<Rightarrow> EchoContextHandleCanAcceptBytes e context w) of
        Inl f \<Rightarrow> Inl f
      | Inr w' \<Rightarrow> run context evs w')"

subsection \<open>The notions the properties are stated with\<close>

text \<open>A context is open when it holds its timer, both streams and its buffer: the state
  between a successful \<^verbatim>\<open>EchoContextOpen\<close> and the close.\<close>

definition is_open :: "addr \<Rightarrow> world \<Rightarrow> bool" where
  "is_open p w =
     (case heap w p of
        None \<Rightarrow> False
      | Some c \<Rightarrow> timer c \<noteq> None \<and> inStream c \<noteq> None \<and> outStream c \<noteq> None
                 \<and> rcvdBytes c \<noteq> None)"

text \<open>The bytes of the receive buffer of the context at \<open>p\<close>.\<close>

definition receiveBuffer :: "addr \<Rightarrow> world \<Rightarrow> UInt8 list" where
  "receiveBuffer p w =
     (case heap w p of
        None \<Rightarrow> []
      | Some c \<Rightarrow> (case rcvdBytes c of None \<Rightarrow> [] | Some d \<Rightarrow> d))"

text \<open>The write attempts of a trace: the bytes offered at each, in order; and whether a call
  of the trace left none of the bytes it offered behind.\<close>

fun offered :: "CFCall \<Rightarrow> UInt8 list list" where
  "offered (CFWriteStreamWriteCall s bytes n) = [bytes]"
| "offered _ = []"

definition writes :: "CFCall list \<Rightarrow> UInt8 list list" where
  "writes cs = concat (map offered cs)"

fun accepted_all :: "CFCall \<Rightarrow> bool" where
  "accepted_all (CFWriteStreamWriteCall s bytes n) = (n = int (length bytes))"
| "accepted_all _ = True"

text \<open>The fire date a trace leaves a timer with: the date of the last call that set it,
  which is the creation of the timer or a later reset.\<close>

fun nextFireDate :: "CFCall list \<Rightarrow> CFRunLoopTimerRef \<Rightarrow> CFAbsoluteTime option" where
  "nextFireDate [] t = None"
| "nextFireDate (CFRunLoopTimerCreate t' d # cs) t =
     (case nextFireDate cs t of
        Some d' \<Rightarrow> Some d'
      | None \<Rightarrow> if t' = t then Some d else None)"
| "nextFireDate (CFRunLoopTimerSetNextFireDate t' d # cs) t =
     (case nextFireDate cs t of
        Some d' \<Rightarrow> Some d'
      | None \<Rightarrow> if t' = t then Some d else None)"
| "nextFireDate (c # cs) t = nextFireDate cs t"

text \<open>The references a trace leaves held on an object: one for each retain and for each
  creation of the object, one less for each release.\<close>

fun refs :: "CFTypeRef \<Rightarrow> CFCall \<Rightarrow> int" where
  "refs x (CFRetain y) = (if x = y then 1 else 0)"
| "refs x (CFRelease y) = (if x = y then - 1 else 0)"
| "refs x (CFStreamCreatePairWithSocket a s i out) =
     (if Some x = map_option ReadStream i then 1 else 0)
     + (if Some x = map_option WriteStream out then 1 else 0)"
| "refs x (CFRunLoopTimerCreate t d) = (if x = RunLoopTimer t then 1 else 0)"
| "refs x _ = 0"

definition held :: "CFCall list \<Rightarrow> CFTypeRef \<Rightarrow> int" where
  "held cs x = sum_list (map (refs x) cs)"

text \<open>The calls by which a close detaches and releases what a context holds.\<close>

definition close_calls :: "EchoContext \<Rightarrow> CFCall list" where
  "close_calls c =
     (case inStream c of
        None \<Rightarrow> []
      | Some s \<Rightarrow> [CFReadStreamSetClient s False, CFReadStreamUnscheduleFromRunLoop s,
                   CFReadStreamClose s, CFRelease (ReadStream s)])
     @ (case outStream c of
          None \<Rightarrow> []
        | Some s \<Rightarrow> [CFWriteStreamSetClient s False, CFWriteStreamUnscheduleFromRunLoop s,
                     CFWriteStreamClose s, CFRelease (WriteStream s)])
     @ (case timer c of
          None \<Rightarrow> []
        | Some t \<Rightarrow> [CFRunLoopTimerInvalidate t, CFRelease (RunLoopTimer t)])"

text \<open>The number of references the reactor holds to a context through the objects the
  context holds: one for each of its streams that has a client and one for its timer while
  the timer is valid.\<close>

definition reactor_holds :: "EchoContext \<Rightarrow> world \<Rightarrow> nat" where
  "reactor_holds c w =
     (case inStream c of None \<Rightarrow> 0 | Some s \<Rightarrow> if registered (ReadStream s) w then 1 else 0)
     + (case outStream c of None \<Rightarrow> 0 | Some s \<Rightarrow> if registered (WriteStream s) w then 1 else 0)
     + (case timer c of None \<Rightarrow> 0 | Some t \<Rightarrow> if registered (RunLoopTimer t) w then 1 else 0)"

text \<open>The number of objects that hold a reference for the reactor, over all contexts: the
  measure by which the recursion of close and release ends.\<close>

definition reactor_refs :: "world \<Rightarrow> nat" where
  "reactor_refs w = length (registrations (calls w))"

text \<open>The three parts of \<^verbatim>\<open>EchoContextClose\<close>, one for each object, and the part of
  \<^verbatim>\<open>EchoContextRelease\<close> for the timer, with the release the reactor makes as a parameter.
  They name the steps of the two functions in the proofs.\<close>

definition leave_read :: "EchoContextRef \<Rightarrow> (world \<Rightarrow> fault + world) \<Rightarrow> EchoContext \<Rightarrow> world \<Rightarrow> fault + world" where
  "leave_read context rel c w =
     (case inStream c of
        None \<Rightarrow> Inr w
      | Some s \<Rightarrow>
          (case (if registered (ReadStream s) w
                 then rel (emit [CFReadStreamSetClient s False] w)
                 else Inr (emit [CFReadStreamSetClient s False] w)) of
             Inl f \<Rightarrow> Inl f
           | Inr wa \<Rightarrow>
               (case deref context wa of
                  Inl f \<Rightarrow> Inl f
                | Inr (pa, ca) \<Rightarrow>
                    Inr (store pa (ca\<lparr>inStream := None\<rparr>)
                          (emit [CFReadStreamUnscheduleFromRunLoop s,
                                 CFReadStreamClose s,
                                 CFRelease (ReadStream s)] wa)))))"

definition leave_write :: "EchoContextRef \<Rightarrow> (world \<Rightarrow> fault + world) \<Rightarrow> EchoContext \<Rightarrow> world \<Rightarrow> fault + world" where
  "leave_write context rel c w =
     (case outStream c of
        None \<Rightarrow> Inr w
      | Some s \<Rightarrow>
          (case (if registered (WriteStream s) w
                 then rel (emit [CFWriteStreamSetClient s False] w)
                 else Inr (emit [CFWriteStreamSetClient s False] w)) of
             Inl f \<Rightarrow> Inl f
           | Inr wa \<Rightarrow>
               (case deref context wa of
                  Inl f \<Rightarrow> Inl f
                | Inr (pa, ca) \<Rightarrow>
                    Inr (store pa (ca\<lparr>outStream := None\<rparr>)
                          (emit [CFWriteStreamUnscheduleFromRunLoop s,
                                 CFWriteStreamClose s,
                                 CFRelease (WriteStream s)] wa)))))"

definition leave_timer :: "EchoContextRef \<Rightarrow> (world \<Rightarrow> fault + world) \<Rightarrow> EchoContext \<Rightarrow> world \<Rightarrow> fault + world" where
  "leave_timer context rel c w =
     (case timer c of
        None \<Rightarrow> Inr w
      | Some t \<Rightarrow>
          (case (if registered (RunLoopTimer t) w
                 then rel (emit [CFRunLoopTimerInvalidate t] w)
                 else Inr (emit [CFRunLoopTimerInvalidate t] w)) of
             Inl f \<Rightarrow> Inl f
           | Inr wa \<Rightarrow>
               (case deref context wa of
                  Inl f \<Rightarrow> Inl f
                | Inr (pa, ca) \<Rightarrow>
                    Inr (store pa (ca\<lparr>timer := None\<rparr>)
                          (emit [CFRelease (RunLoopTimer t)] wa)))))"

definition drop_timer :: "EchoContextRef \<Rightarrow> (world \<Rightarrow> fault + world) \<Rightarrow> EchoContext \<Rightarrow> world \<Rightarrow> fault + world" where
  "drop_timer context rel c w =
     (case timer c of
        None \<Rightarrow> Inr w
      | Some t \<Rightarrow>
          (case (if registered (RunLoopTimer t) w
                 then rel (emit [CFRunLoopTimerInvalidate t] w)
                 else Inr (emit [CFRunLoopTimerInvalidate t] w)) of
             Inl f \<Rightarrow> Inl f
           | Inr wa \<Rightarrow>
               (case deref context wa of
                  Inl f \<Rightarrow> Inl f
                | Inr (pa, ca) \<Rightarrow> Inr (emit [CFRelease (RunLoopTimer t)] wa))))"

text \<open>The lines of a byte sequence, in the words of the wire format: a line is a maximal run
  of bytes up to and including the first terminator. \<open>lines_from acc bs\<close> are the lines of
  \<open>acc @ bs\<close> when \<open>acc\<close> has no terminator; \<open>rest_from\<close> is what follows the last
  terminator.\<close>

fun lines_from :: "UInt8 list \<Rightarrow> UInt8 list \<Rightarrow> UInt8 list list" where
  "lines_from acc [] = []"
| "lines_from acc (b # bs) =
     (if b = 10 then (acc @ [b]) # lines_from [] bs else lines_from (acc @ [b]) bs)"

fun rest_from :: "UInt8 list \<Rightarrow> UInt8 list \<Rightarrow> UInt8 list" where
  "rest_from acc [] = acc"
| "rest_from acc (b # bs) = (if b = 10 then rest_from [] bs else rest_from (acc @ [b]) bs)"

definition lines_of :: "UInt8 list \<Rightarrow> UInt8 list list" where
  "lines_of bs = lines_from [] bs"

definition unterminated :: "UInt8 list \<Rightarrow> UInt8 list" where
  "unterminated bs = rest_from [] bs"

text \<open>The invariant of the echo between events: what the outbound channel holds ends with
  a terminator (or is empty), or the terminator of the line it stopped in is still in the
  buffer.\<close>

definition line_boundary :: "addr \<Rightarrow> world \<Rightarrow> bool" where
  "line_boundary p w =
     (outbound w = [] \<or> last (outbound w) = 10 \<or> 10 \<in> set (receiveBuffer p w))"

text \<open>A sample world for the concrete instances: one context at address \<open>0\<close>, with its
  allocator, timer \<open>2\<close>, inbound stream \<open>3\<close>, outbound stream \<open>4\<close>, a retain count and
  the bytes of its buffer, and the bytes the peer has sent. Nothing has been written and no
  call has been made.\<close>

definition sample_context :: "UInt32 \<Rightarrow> UInt8 list \<Rightarrow> EchoContext" where
  "sample_context n buf =
     \<lparr>alloc = Some 1, retainCount = n, timer = Some 2, inStream = Some 3,
      outStream = Some 4, rcvdBytes = Some buf\<rparr>"

definition sample_world :: "UInt32 \<Rightarrow> UInt8 list \<Rightarrow> UInt8 list \<Rightarrow> world" where
  "sample_world n buf sent =
     \<lparr>heap = [0 \<mapsto> sample_context n buf], inbound = sent, outbound = [], calls = []\<rparr>"

text \<open>The world after a context has been created at address \<open>0\<close> and opened at time
  \<open>0\<close>, with the trace of the two calls: the sample context, to which the reactor holds
  three references. The parameters are the retain count, which is \<open>4\<close> when the open returns,
  and the bytes of the buffer.\<close>

definition opened_world :: "UInt32 \<Rightarrow> UInt8 list \<Rightarrow> world" where
  "opened_world n buf =
     \<lparr>heap = [0 \<mapsto> sample_context n buf], inbound = [], outbound = [],
      calls = [CFRetain (Allocator 1),
               CFStreamCreatePairWithSocket (Some 1) 5 (Some 3) (Some 4),
               CFReadStreamSetProperty 3,
               CFReadStreamSetClient 3 True, CFWriteStreamSetClient 4 True,
               CFReadStreamScheduleWithRunLoop 3, CFWriteStreamScheduleWithRunLoop 4,
               CFReadStreamOpen 3, CFWriteStreamOpen 4,
               CFRunLoopTimerCreate 2 60, CFRunLoopAddTimer 2]\<rparr>"

section \<open>Termination of close and release\<close>

lemma calls_store [simp]: "calls (store p c w) = calls w"
  by (simp add: store_def)

lemma heap_emit [simp]: "heap (emit cs w) = heap w"
  by (simp add: emit_def)

lemma registrations_emit:
  "registrations (calls (emit cs w)) = foldl reg_step (registrations (calls w)) cs"
  by (simp add: registrations_def emit_def)

lemma deref_emit [simp]: "deref context (emit cs w) = deref context w"
  by (simp add: deref_def split: option.split)

lemma reactor_refs_store [simp]: "reactor_refs (store p c w) = reactor_refs w"
  by (simp add: reactor_refs_def)

lemma reactor_refs_free [simp]: "reactor_refs (w\<lparr>heap := h\<rparr>) = reactor_refs w"
  by (simp add: reactor_refs_def)

lemma reactor_refs_quiet [simp]:
  "reactor_refs (emit [CFReadStreamUnscheduleFromRunLoop s, CFReadStreamClose s, CFRelease x] w)
     = reactor_refs w"
  "reactor_refs (emit [CFWriteStreamUnscheduleFromRunLoop s, CFWriteStreamClose s, CFRelease x] w)
     = reactor_refs w"
  "reactor_refs (emit [CFRelease x] w) = reactor_refs w"
  "reactor_refs (emit [CFAllocatorDeallocate a p] w) = reactor_refs w"
  by (simp_all add: reactor_refs_def registrations_emit)

lemma reactor_refs_removed_le:
  "reactor_refs (emit [CFReadStreamSetClient s False] w) \<le> reactor_refs w"
  "reactor_refs (emit [CFWriteStreamSetClient s False] w) \<le> reactor_refs w"
  "reactor_refs (emit [CFRunLoopTimerInvalidate t] w) \<le> reactor_refs w"
  by (simp_all add: reactor_refs_def registrations_emit)

lemma reactor_refs_removed_less:
  "registered (ReadStream s) w \<Longrightarrow>
     reactor_refs (emit [CFReadStreamSetClient s False] w) < reactor_refs w"
  "registered (WriteStream s) w \<Longrightarrow>
     reactor_refs (emit [CFWriteStreamSetClient s False] w) < reactor_refs w"
  "registered (RunLoopTimer t) w \<Longrightarrow>
     reactor_refs (emit [CFRunLoopTimerInvalidate t] w) < reactor_refs w"
  by (simp_all add: reactor_refs_def registrations_emit registered_def length_removeAll_less)


lemma close_folded:
  assumes "EchoContextClose_EchoContextRelease_dom (Inl (context, w))"
  shows "EchoContextClose context w =
     (case deref context w of
        Inl f \<Rightarrow> Inl f
      | Inr (p, c) \<Rightarrow>
          (case leave_read context (EchoContextRelease context) c w of
             Inl f \<Rightarrow> Inl f
           | Inr w1 \<Rightarrow>
               (case deref context w1 of
                  Inl f \<Rightarrow> Inl f
                | Inr (p1, c1) \<Rightarrow>
                    (case leave_write context (EchoContextRelease context) c1 w1 of
                       Inl f \<Rightarrow> Inl f
                     | Inr w2 \<Rightarrow>
                         (case deref context w2 of
                            Inl f \<Rightarrow> Inl f
                          | Inr (p2, c2) \<Rightarrow>
                              leave_timer context (EchoContextRelease context) c2 w2)))))"
  unfolding EchoContextClose.psimps [OF assms] leave_read_def leave_write_def leave_timer_def ..

lemma release_folded:
  assumes "EchoContextClose_EchoContextRelease_dom (Inr (context, w))"
  shows "EchoContextRelease context w =
     (case context of
        None \<Rightarrow> Inr w
      | Some p \<Rightarrow>
          (case heap w p of
             None \<Rightarrow> Inl UseAfterFree
           | Some c0 \<Rightarrow>
               let c = c0\<lparr>retainCount := retainCount c0 - 1\<rparr>;
                   w1 = store p c w
               in if retainCount c > 0 then Inr w1
                  else
                    let a = alloc c;
                        w2 = (case rcvdBytes c of
                                None \<Rightarrow> w1
                              | Some d \<Rightarrow> emit [CFRelease (MutableData p)] w1)
                    in (case drop_timer context (EchoContextRelease context) c w2 of
                          Inl f \<Rightarrow> Inl f
                        | Inr w3 \<Rightarrow>
                            (case EchoContextClose context w3 of
                               Inl f \<Rightarrow> Inl f
                             | Inr w4 \<Rightarrow>
                                 let w5 = emit [CFAllocatorDeallocate a p]
                                            (w4\<lparr>heap := (heap w4)(p := None)\<rparr>)
                                 in Inr (case a of
                                           None \<Rightarrow> w5
                                         | Some x \<Rightarrow> emit [CFRelease (Allocator x)] w5)))))"
  unfolding EchoContextRelease.psimps [OF assms] drop_timer_def ..

lemma leave_read_refs:
  assumes "leave_read context rel c w = Inr w1"
    and "\<And>s w'. inStream c = Some s \<Longrightarrow> registered (ReadStream s) w \<Longrightarrow>
           rel (emit [CFReadStreamSetClient s False] w) = Inr w' \<Longrightarrow>
           reactor_refs w' \<le> reactor_refs (emit [CFReadStreamSetClient s False] w)"
  shows "reactor_refs w1 \<le> reactor_refs w"
proof (cases "inStream c")
  case None
  with assms(1) show ?thesis
    by (simp add: leave_read_def)
next
  case (Some s)
  with assms(1) obtain wa pa ca where
    r: "(if registered (ReadStream s) w
         then rel (emit [CFReadStreamSetClient s False] w)
         else Inr (emit [CFReadStreamSetClient s False] w)) = Inr wa"
    and w1: "w1 = store pa (ca\<lparr>inStream := None\<rparr>)
                          (emit [CFReadStreamUnscheduleFromRunLoop s,
                                 CFReadStreamClose s,
                                 CFRelease (ReadStream s)] wa)"
    by (auto simp add: leave_read_def split: sum.splits prod.splits)
  have "reactor_refs wa \<le> reactor_refs (emit [CFReadStreamSetClient s False] w)"
    using r assms(2) [OF Some] by (auto split: if_splits)
  with reactor_refs_removed_le(1) [of s w] w1 show ?thesis
    by simp
qed

lemma leave_write_refs:
  assumes "leave_write context rel c w = Inr w1"
    and "\<And>s w'. outStream c = Some s \<Longrightarrow> registered (WriteStream s) w \<Longrightarrow>
           rel (emit [CFWriteStreamSetClient s False] w) = Inr w' \<Longrightarrow>
           reactor_refs w' \<le> reactor_refs (emit [CFWriteStreamSetClient s False] w)"
  shows "reactor_refs w1 \<le> reactor_refs w"
proof (cases "outStream c")
  case None
  with assms(1) show ?thesis
    by (simp add: leave_write_def)
next
  case (Some s)
  with assms(1) obtain wa pa ca where
    r: "(if registered (WriteStream s) w
         then rel (emit [CFWriteStreamSetClient s False] w)
         else Inr (emit [CFWriteStreamSetClient s False] w)) = Inr wa"
    and w1: "w1 = store pa (ca\<lparr>outStream := None\<rparr>)
                          (emit [CFWriteStreamUnscheduleFromRunLoop s,
                                 CFWriteStreamClose s,
                                 CFRelease (WriteStream s)] wa)"
    by (auto simp add: leave_write_def split: sum.splits prod.splits)
  have "reactor_refs wa \<le> reactor_refs (emit [CFWriteStreamSetClient s False] w)"
    using r assms(2) [OF Some] by (auto split: if_splits)
  with reactor_refs_removed_le(2) [of s w] w1 show ?thesis
    by simp
qed

lemma leave_timer_refs:
  assumes "leave_timer context rel c w = Inr w1"
    and "\<And>t w'. timer c = Some t \<Longrightarrow> registered (RunLoopTimer t) w \<Longrightarrow>
           rel (emit [CFRunLoopTimerInvalidate t] w) = Inr w' \<Longrightarrow>
           reactor_refs w' \<le> reactor_refs (emit [CFRunLoopTimerInvalidate t] w)"
  shows "reactor_refs w1 \<le> reactor_refs w"
proof (cases "timer c")
  case None
  with assms(1) show ?thesis
    by (simp add: leave_timer_def)
next
  case (Some t)
  with assms(1) obtain wa pa ca where
    r: "(if registered (RunLoopTimer t) w
         then rel (emit [CFRunLoopTimerInvalidate t] w)
         else Inr (emit [CFRunLoopTimerInvalidate t] w)) = Inr wa"
    and w1: "w1 = store pa (ca\<lparr>timer := None\<rparr>) (emit [CFRelease (RunLoopTimer t)] wa)"
    by (auto simp add: leave_timer_def split: sum.splits prod.splits)
  have "reactor_refs wa \<le> reactor_refs (emit [CFRunLoopTimerInvalidate t] w)"
    using r assms(2) [OF Some] by (auto split: if_splits)
  with reactor_refs_removed_le(3) [of t w] w1 show ?thesis
    by simp
qed

lemma drop_timer_refs:
  assumes "drop_timer context rel c w = Inr w1"
    and "\<And>t w'. timer c = Some t \<Longrightarrow> registered (RunLoopTimer t) w \<Longrightarrow>
           rel (emit [CFRunLoopTimerInvalidate t] w) = Inr w' \<Longrightarrow>
           reactor_refs w' \<le> reactor_refs (emit [CFRunLoopTimerInvalidate t] w)"
  shows "reactor_refs w1 \<le> reactor_refs w"
proof (cases "timer c")
  case None
  with assms(1) show ?thesis
    by (simp add: drop_timer_def)
next
  case (Some t)
  with assms(1) obtain wa where
    r: "(if registered (RunLoopTimer t) w
         then rel (emit [CFRunLoopTimerInvalidate t] w)
         else Inr (emit [CFRunLoopTimerInvalidate t] w)) = Inr wa"
    and w1: "w1 = emit [CFRelease (RunLoopTimer t)] wa"
    by (auto simp add: drop_timer_def split: sum.splits prod.splits)
  have "reactor_refs wa \<le> reactor_refs (emit [CFRunLoopTimerInvalidate t] w)"
    using r assms(2) [OF Some] by (auto split: if_splits)
  with reactor_refs_removed_le(3) [of t w] w1 show ?thesis
    by simp
qed

lemma close_release_refs:
  "EchoContextClose_EchoContextRelease_dom (Inl (context, w)) \<Longrightarrow>
     (\<forall>w'. EchoContextClose context w = Inr w' \<longrightarrow> reactor_refs w' \<le> reactor_refs w)"
  "EchoContextClose_EchoContextRelease_dom (Inr (context, w)) \<Longrightarrow>
     (\<forall>w'. EchoContextRelease context w = Inr w' \<longrightarrow> reactor_refs w' \<le> reactor_refs w)"
proof (induction rule: EchoContextClose_EchoContextRelease.pinduct)
  case (1 ctx w)
  show ?case
  proof (intro allI impI)
    fix w'
    assume res: "EchoContextClose ctx w = Inr w'"
    from res close_folded [OF "1.hyps"] obtain p c w1 p1 c1 w2 p2 c2 where
      d0: "deref ctx w = Inr (p, c)"
      and b1: "leave_read ctx (EchoContextRelease ctx) c w = Inr w1"
      and d1: "deref ctx w1 = Inr (p1, c1)"
      and b2: "leave_write ctx (EchoContextRelease ctx) c1 w1 = Inr w2"
      and d2: "deref ctx w2 = Inr (p2, c2)"
      and b3: "leave_timer ctx (EchoContextRelease ctx) c2 w2 = Inr w'"
      by (auto split: sum.splits prod.splits)
    have r1: "reactor_refs w1 \<le> reactor_refs w"
      by (rule leave_read_refs [OF b1]) (use "1.IH"(1) [OF d0 refl] in blast)
    have r2: "reactor_refs w2 \<le> reactor_refs w1"
      by (rule leave_write_refs [OF b2])
        (use "1.IH"(2) [OF d0 refl b1 [unfolded leave_read_def] d1 refl] in blast)
    have r3: "reactor_refs w' \<le> reactor_refs w2"
      by (rule leave_timer_refs [OF b3])
        (use "1.IH"(3) [OF d0 refl b1 [unfolded leave_read_def] d1 refl
              b2 [unfolded leave_write_def] d2 refl] in blast)
    from r1 r2 r3 show "reactor_refs w' \<le> reactor_refs w"
      by simp
  qed
next
  case (2 ctx w)
  show ?case
  proof (intro allI impI)
    fix w'
    assume res: "EchoContextRelease ctx w = Inr w'"
    show "reactor_refs w' \<le> reactor_refs w"
    proof (cases ctx)
      case None
      with res release_folded [OF "2.hyps"] show ?thesis
        by simp
    next
      case (Some p)
      with res release_folded [OF "2.hyps"] obtain c0 where c0: "heap w p = Some c0"
        by (auto split: option.splits)
      define c where "c = c0\<lparr>retainCount := retainCount c0 - 1\<rparr>"
      define w1 where "w1 = store p c w"
      define w2 where "w2 = (case rcvdBytes c of
                                None \<Rightarrow> w1
                              | Some d \<Rightarrow> emit [CFRelease (MutableData p)] w1)"
      have refs2: "reactor_refs w2 = reactor_refs w"
        by (simp add: w2_def w1_def split: option.split)
      show ?thesis
      proof (cases "0 < retainCount c")
        case True
        with res release_folded [OF "2.hyps"] Some c0 show ?thesis
          by (simp add: c_def Let_def)
      next
        case False
        with res release_folded [OF "2.hyps"] Some c0 obtain w3 w4 where
          t: "drop_timer ctx (EchoContextRelease ctx) c w2 = Inr w3"
          and cl: "EchoContextClose ctx w3 = Inr w4"
          and w': "reactor_refs w' = reactor_refs w4"
          by (auto simp add: c_def w1_def w2_def Let_def split: sum.splits option.splits)
        have r3: "reactor_refs w3 \<le> reactor_refs w2"
          by (rule drop_timer_refs [OF t])
            (use "2.IH"(1) [OF Some c0 c_def w1_def False refl w2_def] in blast)
        have r4: "reactor_refs w4 \<le> reactor_refs w3"
          using "2.IH"(2) [OF Some c0 c_def w1_def False refl w2_def t [unfolded drop_timer_def]] cl
          by blast
        from r3 r4 refs2 w' show ?thesis
          by simp
      qed
    qed
  qed
qed

lemma leave_read_refs_dom:
  assumes "leave_read context (EchoContextRelease context) c w = Inr w1"
    and "\<And>s. inStream c = Some s \<Longrightarrow> registered (ReadStream s) w \<Longrightarrow>
           EchoContextClose_EchoContextRelease_dom
             (Inr (context, emit [CFReadStreamSetClient s False] w))"
  shows "reactor_refs w1 \<le> reactor_refs w"
  by (rule leave_read_refs [OF assms(1)]) (use close_release_refs(2) [OF assms(2)] in blast)

lemma leave_write_refs_dom:
  assumes "leave_write context (EchoContextRelease context) c w = Inr w1"
    and "\<And>s. outStream c = Some s \<Longrightarrow> registered (WriteStream s) w \<Longrightarrow>
           EchoContextClose_EchoContextRelease_dom
             (Inr (context, emit [CFWriteStreamSetClient s False] w))"
  shows "reactor_refs w1 \<le> reactor_refs w"
  by (rule leave_write_refs [OF assms(1)]) (use close_release_refs(2) [OF assms(2)] in blast)

lemma drop_timer_refs_dom:
  assumes "drop_timer context (EchoContextRelease context) c w = Inr w1"
    and "\<And>t. timer c = Some t \<Longrightarrow> registered (RunLoopTimer t) w \<Longrightarrow>
           EchoContextClose_EchoContextRelease_dom
             (Inr (context, emit [CFRunLoopTimerInvalidate t] w))"
  shows "reactor_refs w1 \<le> reactor_refs w"
  by (rule drop_timer_refs [OF assms(1)]) (use close_release_refs(2) [OF assms(2)] in blast)

termination EchoContextClose
proof (relation "measure (\<lambda>x. case x of Inl (ctx, w) \<Rightarrow> 2 * reactor_refs w
                                   | Inr (ctx, w) \<Rightarrow> 2 * reactor_refs w + 1)", goal_cases)
  case 1
  show ?case
    by simp
next
  case (2 ctx w b x y s)
  from reactor_refs_removed_less(1) [OF 2(4)] show ?case
    by simp
next
  case (3 ctx w b x y ba bb xa ya s)
  have "leave_read ctx (EchoContextRelease ctx) y w = Inr ba"
    unfolding leave_read_def by (rule 3(3))
  from leave_read_refs_dom [OF this 3(8)] reactor_refs_removed_less(2) [OF 3(7)]
  show ?case
    by simp
next
  case (4 ctx w b x y ba bb xa ya bc bd xb yb t)
  have "leave_read ctx (EchoContextRelease ctx) y w = Inr ba"
    unfolding leave_read_def by (rule 4(3))
  moreover have "leave_write ctx (EchoContextRelease ctx) ya ba = Inr bc"
    unfolding leave_write_def by (rule 4(6))
  ultimately show ?case
    using leave_read_refs_dom [OF _ 4(12)] leave_write_refs_dom [OF _ 4(11)]
      reactor_refs_removed_less(3) [OF 4(10)]
    by fastforce
next
  case (5 ctx w p c0 c w1 a w2 t)
  from 5(3,4,7) have "reactor_refs w2 = reactor_refs w"
    by (simp split: option.split)
  with reactor_refs_removed_less(3) [OF 5(9)] show ?case
    by simp
next
  case (6 ctx w p c0 c w1 a w2 w3)
  from 6(3,4,7) have same: "reactor_refs w2 = reactor_refs w"
    by (simp split: option.split)
  have "drop_timer ctx (EchoContextRelease ctx) c w2 = Inr w3"
    unfolding drop_timer_def by (rule 6(8))
  from drop_timer_refs_dom [OF this] 6(9) [unfolded 6(1) [symmetric]] same show ?case
    by simp
qed

declare EchoContextClose.simps [simp del] EchoContextRelease.simps [simp del]

section \<open>Close and release\<close>

lemma close_eq:
  "EchoContextClose ctx w =
     (case deref ctx w of
        Inl f \<Rightarrow> Inl f
      | Inr (p, c) \<Rightarrow>
          (case leave_read ctx (EchoContextRelease ctx) c w of
             Inl f \<Rightarrow> Inl f
           | Inr w1 \<Rightarrow>
               (case deref ctx w1 of
                  Inl f \<Rightarrow> Inl f
                | Inr (p1, c1) \<Rightarrow>
                    (case leave_write ctx (EchoContextRelease ctx) c1 w1 of
                       Inl f \<Rightarrow> Inl f
                     | Inr w2 \<Rightarrow>
                         (case deref ctx w2 of
                            Inl f \<Rightarrow> Inl f
                          | Inr (p2, c2) \<Rightarrow>
                              leave_timer ctx (EchoContextRelease ctx) c2 w2)))))"
  unfolding EchoContextClose.simps [of ctx w] leave_read_def leave_write_def leave_timer_def ..

lemma release_eq:
  "EchoContextRelease ctx w =
     (case ctx of
        None \<Rightarrow> Inr w
      | Some p \<Rightarrow>
          (case heap w p of
             None \<Rightarrow> Inl UseAfterFree
           | Some c0 \<Rightarrow>
               let c = c0\<lparr>retainCount := retainCount c0 - 1\<rparr>;
                   w1 = store p c w
               in if retainCount c > 0 then Inr w1
                  else
                    let a = alloc c;
                        w2 = (case rcvdBytes c of
                                None \<Rightarrow> w1
                              | Some d \<Rightarrow> emit [CFRelease (MutableData p)] w1)
                    in (case drop_timer ctx (EchoContextRelease ctx) c w2 of
                          Inl f \<Rightarrow> Inl f
                        | Inr w3 \<Rightarrow>
                            (case EchoContextClose ctx w3 of
                               Inl f \<Rightarrow> Inl f
                             | Inr w4 \<Rightarrow>
                                 let w5 = emit [CFAllocatorDeallocate a p]
                                            (w4\<lparr>heap := (heap w4)(p := None)\<rparr>)
                                 in Inr (case a of
                                           None \<Rightarrow> w5
                                         | Some x \<Rightarrow> emit [CFRelease (Allocator x)] w5)))))"
  unfolding EchoContextRelease.simps [of ctx w] drop_timer_def ..

lemma word_pred_pos: "(0 < (x::UInt32) - 1) = (x \<noteq> 1)"
  by (simp add: word_gt_0)

lemma release_null: "EchoContextRelease None w = Inr w"
  by (simp add: release_eq)

lemma release_keep:
  assumes "heap w p = Some c" "retainCount c \<noteq> 1"
  shows "EchoContextRelease (Some p) w =
     Inr (w\<lparr>heap := (heap w)(p \<mapsto> c\<lparr>retainCount := retainCount c - 1\<rparr>)\<rparr>)"
  using assms by (simp add: release_eq store_def word_pred_pos Let_def)

lemma registered_store [simp]: "registered x (store p c w) = registered x w"
  by (simp add: registered_def)

lemma registered_heap [simp]: "registered x (w\<lparr>heap := h\<rparr>) = registered x w"
  by (simp add: registered_def)

lemma leave_read_result:
  assumes "heap w p = Some c" "inStream c = Some s"
    and "registered (ReadStream s) w \<Longrightarrow> retainCount c \<noteq> 1"
  shows "leave_read (Some p) (EchoContextRelease (Some p)) c w =
     Inr (w\<lparr>heap := (heap w)(p \<mapsto> c\<lparr>retainCount :=
                 (if registered (ReadStream s) w then retainCount c - 1 else retainCount c),
               inStream := None\<rparr>),
            calls := calls w @ [CFReadStreamSetClient s False,
              CFReadStreamUnscheduleFromRunLoop s, CFReadStreamClose s,
              CFRelease (ReadStream s)]\<rparr>)"
proof (cases "registered (ReadStream s) w")
  case True
  have "heap (emit [CFReadStreamSetClient s False] w) p = Some c"
    using assms(1) by simp
  from release_keep [OF this assms(3) [OF True]] True assms(2) show ?thesis
    by (cases w) (simp add: leave_read_def deref_def store_def emit_def)
next
  case False
  with assms(1,2) show ?thesis
    by (cases w; cases c) (simp add: leave_read_def deref_def store_def emit_def)
qed

lemma leave_write_result:
  assumes "heap w p = Some c" "outStream c = Some s"
    and "registered (WriteStream s) w \<Longrightarrow> retainCount c \<noteq> 1"
  shows "leave_write (Some p) (EchoContextRelease (Some p)) c w =
     Inr (w\<lparr>heap := (heap w)(p \<mapsto> c\<lparr>retainCount :=
                 (if registered (WriteStream s) w then retainCount c - 1 else retainCount c),
               outStream := None\<rparr>),
            calls := calls w @ [CFWriteStreamSetClient s False,
              CFWriteStreamUnscheduleFromRunLoop s, CFWriteStreamClose s,
              CFRelease (WriteStream s)]\<rparr>)"
proof (cases "registered (WriteStream s) w")
  case True
  have "heap (emit [CFWriteStreamSetClient s False] w) p = Some c"
    using assms(1) by simp
  from release_keep [OF this assms(3) [OF True]] True assms(2) show ?thesis
    by (cases w) (simp add: leave_write_def deref_def store_def emit_def)
next
  case False
  with assms(1,2) show ?thesis
    by (cases w; cases c) (simp add: leave_write_def deref_def store_def emit_def)
qed

lemma leave_timer_result:
  assumes "heap w p = Some c" "timer c = Some t"
    and "registered (RunLoopTimer t) w \<Longrightarrow> retainCount c \<noteq> 1"
  shows "leave_timer (Some p) (EchoContextRelease (Some p)) c w =
     Inr (w\<lparr>heap := (heap w)(p \<mapsto> c\<lparr>retainCount :=
                 (if registered (RunLoopTimer t) w then retainCount c - 1 else retainCount c),
               timer := None\<rparr>),
            calls := calls w @ [CFRunLoopTimerInvalidate t, CFRelease (RunLoopTimer t)]\<rparr>)"
proof (cases "registered (RunLoopTimer t) w")
  case True
  have "heap (emit [CFRunLoopTimerInvalidate t] w) p = Some c"
    using assms(1) by simp
  from release_keep [OF this assms(3) [OF True]] True assms(2) show ?thesis
    by (cases w) (simp add: leave_timer_def deref_def store_def emit_def)
next
  case False
  with assms(1,2) show ?thesis
    by (cases w; cases c) (simp add: leave_timer_def deref_def store_def emit_def)
qed

lemma world_same: "heap w p = Some c \<Longrightarrow> w\<lparr>heap := (heap w)(p \<mapsto> c), calls := calls w @ []\<rparr> = w"
  by (cases w) (simp add: fun_upd_idem)

lemma world_same_heap: "heap w p = Some c \<Longrightarrow> w\<lparr>heap := (heap w)(p \<mapsto> c)\<rparr> = w"
  by (cases w) (simp add: fun_upd_idem)

lemma counts_after_close:
  fixes n :: UInt32
  assumes "k = 0 \<or> k < unat n"
    and "k = (if r1 then 1 else 0) + (if r2 then 1 else 0) + (if r3 then (1::nat) else 0)"
  shows "(r1 \<longrightarrow> n \<noteq> 1) \<and>
         (r2 \<longrightarrow> n - (if r1 then 1 else 0) \<noteq> 1) \<and>
         (r3 \<longrightarrow> n - (if r1 then 1 else 0) - (if r2 then 1 else 0) \<noteq> 1) \<and>
         n - (if r1 then 1 else 0) - (if r2 then 1 else 0) - (if r3 then 1 else 0) = n - of_nat k"
  using assms by (cases r1; cases r2; cases r3) (simp_all, unat_arith+)

lemma close_result:
  assumes "heap w p = Some c"
    and "reactor_holds c w = 0 \<or> reactor_holds c w < unat (retainCount c)"
  shows "EchoContextClose (Some p) w =
     Inr (w\<lparr>heap := (heap w)(p \<mapsto> c\<lparr>inStream := None, outStream := None, timer := None,
                 retainCount := retainCount c - of_nat (reactor_holds c w)\<rparr>),
            calls := calls w @ close_calls c\<rparr>)"
proof -
  define r1 where "r1 = (case inStream c of None \<Rightarrow> False | Some s \<Rightarrow> registered (ReadStream s) w)"
  define r2 where "r2 = (case outStream c of None \<Rightarrow> False | Some s \<Rightarrow> registered (WriteStream s) w)"
  define r3 where "r3 = (case timer c of None \<Rightarrow> False | Some t \<Rightarrow> registered (RunLoopTimer t) w)"
  define cs1 where "cs1 = (case inStream c of
        None \<Rightarrow> []
      | Some s \<Rightarrow> [CFReadStreamSetClient s False, CFReadStreamUnscheduleFromRunLoop s,
                   CFReadStreamClose s, CFRelease (ReadStream s)])"
  define cs2 where "cs2 = (case outStream c of
          None \<Rightarrow> []
        | Some s \<Rightarrow> [CFWriteStreamSetClient s False, CFWriteStreamUnscheduleFromRunLoop s,
                     CFWriteStreamClose s, CFRelease (WriteStream s)])"
  define cs3 where "cs3 = (case timer c of
          None \<Rightarrow> []
        | Some t \<Rightarrow> [CFRunLoopTimerInvalidate t, CFRelease (RunLoopTimer t)])"
  define n1 where "n1 = retainCount c - (if r1 then 1 else 0)"
  define n2 where "n2 = n1 - (if r2 then 1 else 0)"
  define n3 where "n3 = n2 - (if r3 then 1 else 0)"
  define c1 where "c1 = c\<lparr>retainCount := n1, inStream := None\<rparr>"
  define c2 where "c2 = c1\<lparr>retainCount := n2, outStream := None\<rparr>"
  define c3 where "c3 = c2\<lparr>retainCount := n3, timer := None\<rparr>"
  define w1 where "w1 = w\<lparr>heap := (heap w)(p \<mapsto> c1), calls := calls w @ cs1\<rparr>"
  define w2 where "w2 = w1\<lparr>heap := (heap w1)(p \<mapsto> c2), calls := calls w1 @ cs2\<rparr>"
  define w3 where "w3 = w2\<lparr>heap := (heap w2)(p \<mapsto> c3), calls := calls w2 @ cs3\<rparr>"
  have k: "reactor_holds c w =
      (if r1 then 1 else 0) + (if r2 then 1 else 0) + (if r3 then (1::nat) else 0)"
    by (simp add: reactor_holds_def r1_def r2_def r3_def split: option.split)
  from counts_after_close [OF assms(2) k]
  have ok1: "r1 \<longrightarrow> retainCount c \<noteq> 1" and ok2: "r2 \<longrightarrow> n1 \<noteq> 1" and ok3: "r3 \<longrightarrow> n2 \<noteq> 1"
    and n3: "n3 = retainCount c - of_nat (reactor_holds c w)"
    by (simp_all add: n1_def n2_def n3_def)
  have d0: "deref (Some p) w = Inr (p, c)"
    using assms(1) by (simp add: deref_def)
  have b1: "leave_read (Some p) (EchoContextRelease (Some p)) c w = Inr w1"
  proof (cases "inStream c")
    case None
    then have "c1 = c" "cs1 = []"
      by (simp_all add: c1_def cs1_def n1_def r1_def)
    with None assms(1) show ?thesis
      by (simp add: leave_read_def w1_def world_same world_same_heap)
  next
    case (Some s)
    with ok1 have "registered (ReadStream s) w \<Longrightarrow> retainCount c \<noteq> 1"
      by (simp add: r1_def)
    from leave_read_result [OF assms(1) Some this] Some show ?thesis
      by (simp add: w1_def c1_def cs1_def n1_def r1_def)
  qed
  have h1: "heap w1 p = Some c1"
    by (simp add: w1_def)
  have d1: "deref (Some p) w1 = Inr (p, c1)"
    using h1 by (simp add: deref_def)
  have reg1: "registered (WriteStream s) w1 = registered (WriteStream s) w"
    "registered (RunLoopTimer t) w1 = registered (RunLoopTimer t) w" for s t
    by (simp_all add: w1_def cs1_def registered_def registrations_def split: option.split)
  have b2: "leave_write (Some p) (EchoContextRelease (Some p)) c1 w1 = Inr w2"
  proof (cases "outStream c")
    case None
    then have "c2 = c1" "cs2 = []" "outStream c1 = None"
      by (simp_all add: c2_def c1_def cs2_def n2_def r2_def)
    with h1 show ?thesis
      by (simp add: leave_write_def w2_def world_same world_same_heap)
  next
    case (Some s)
    then have o1: "outStream c1 = Some s"
      by (simp add: c1_def)
    from ok2 Some have "registered (WriteStream s) w1 \<Longrightarrow> retainCount c1 \<noteq> 1"
      by (simp add: r2_def reg1 c1_def)
    from leave_write_result [OF h1 o1 this] Some show ?thesis
      by (simp add: w2_def c2_def cs2_def n2_def r2_def reg1 c1_def)
  qed
  have h2: "heap w2 p = Some c2"
    by (simp add: w2_def)
  have d2: "deref (Some p) w2 = Inr (p, c2)"
    using h2 by (simp add: deref_def)
  have reg2: "registered (RunLoopTimer t) w2 = registered (RunLoopTimer t) w" for t
    using reg1 (2) [of t]
    by (simp add: w2_def cs2_def registered_def registrations_def split: option.split)
  have b3: "leave_timer (Some p) (EchoContextRelease (Some p)) c2 w2 = Inr w3"
  proof (cases "timer c")
    case None
    then have "c3 = c2" "cs3 = []" "timer c2 = None"
      by (simp_all add: c3_def c2_def c1_def cs3_def n3_def r3_def)
    with h2 show ?thesis
      by (simp add: leave_timer_def w3_def world_same world_same_heap)
  next
    case (Some t)
    then have t2: "timer c2 = Some t"
      by (simp add: c2_def c1_def)
    from ok3 Some have "registered (RunLoopTimer t) w2 \<Longrightarrow> retainCount c2 \<noteq> 1"
      by (simp add: r3_def reg2 c2_def)
    from leave_timer_result [OF h2 t2 this] Some show ?thesis
      by (simp add: w3_def c3_def cs3_def n3_def r3_def reg2 c2_def)
  qed
  have "EchoContextClose (Some p) w = Inr w3"
    by (subst close_eq) (simp add: d0 b1 d1 b2 d2 b3)
  also have "w3 = w\<lparr>heap := (heap w)(p \<mapsto> c\<lparr>inStream := None, outStream := None, timer := None,
                 retainCount := retainCount c - of_nat (reactor_holds c w)\<rparr>),
            calls := calls w @ close_calls c\<rparr>"
    unfolding n3 [symmetric]
    by (cases w; cases c)
      (simp add: w3_def w2_def w1_def c3_def c2_def c1_def close_calls_def cs1_def cs2_def cs3_def)
  finally show ?thesis .
qed

lemma reactor_holds_none:
  "(reactor_holds c w = 0) =
     ((\<forall>s. inStream c = Some s \<longrightarrow> \<not> registered (ReadStream s) w) \<and>
      (\<forall>s. outStream c = Some s \<longrightarrow> \<not> registered (WriteStream s) w) \<and>
      (\<forall>t. timer c = Some t \<longrightarrow> \<not> registered (RunLoopTimer t) w))"
  by (simp add: reactor_holds_def split: option.split)

lemma reactor_holds_count [simp]:
  "reactor_holds (c\<lparr>retainCount := n\<rparr>) w = reactor_holds c w"
  by (simp add: reactor_holds_def)

lemma close_calls_count [simp]: "close_calls (c\<lparr>retainCount := n\<rparr>) = close_calls c"
  by (simp add: close_calls_def)

lemma release_last:
  assumes "heap w p = Some c" "retainCount c = 1" "reactor_holds c w = 0"
  shows "EchoContextRelease (Some p) w =
     Inr (w\<lparr>heap := (heap w)(p := None),
            calls := calls w
              @ (case rcvdBytes c of None \<Rightarrow> [] | Some d \<Rightarrow> [CFRelease (MutableData p)])
              @ (case timer c of None \<Rightarrow> [] | Some t \<Rightarrow>
                   [CFRunLoopTimerInvalidate t, CFRelease (RunLoopTimer t)])
              @ close_calls c
              @ [CFAllocatorDeallocate (alloc c) p]
              @ (case alloc c of None \<Rightarrow> [] | Some x \<Rightarrow> [CFRelease (Allocator x)])\<rparr>)"
proof -
  define c' where "c' = c\<lparr>retainCount := retainCount c - 1\<rparr>"
  define cs2 where "cs2 = (case rcvdBytes c of None \<Rightarrow> [] | Some d \<Rightarrow> [CFRelease (MutableData p)])"
  define cs3 where "cs3 = (case timer c of None \<Rightarrow> [] | Some t \<Rightarrow>
                   [CFRunLoopTimerInvalidate t, CFRelease (RunLoopTimer t)])"
  define w2 where "w2 = w\<lparr>heap := (heap w)(p \<mapsto> c'), calls := calls w @ cs2\<rparr>"
  define w3 where "w3 = w\<lparr>heap := (heap w)(p \<mapsto> c'), calls := calls w @ cs2 @ cs3\<rparr>"
  have zero: "\<not> 0 < retainCount c'"
    using assms(2) by (simp add: c'_def)
  have w2: "(case rcvdBytes c' of
               None \<Rightarrow> store p c' w
             | Some d \<Rightarrow> emit [CFRelease (MutableData p)] (store p c' w)) = w2"
    by (cases w) (simp add: w2_def cs2_def c'_def store_def emit_def split: option.split)
  have reg2: "registered x w2 = registered x w" for x
    by (simp add: w2_def cs2_def registered_def registrations_def split: option.split)
  have h2: "heap w2 p = Some c'"
    by (simp add: w2_def)
  have dt: "drop_timer (Some p) (EchoContextRelease (Some p)) c' w2 = Inr w3"
  proof (cases "timer c")
    case None
    then show ?thesis
      by (simp add: drop_timer_def c'_def w2_def w3_def cs3_def)
  next
    case (Some t)
    with assms(3) have "\<not> registered (RunLoopTimer t) w2"
      by (simp add: reactor_holds_none reg2)
    with Some h2 show ?thesis
      by (cases w) (simp add: drop_timer_def c'_def deref_def emit_def w2_def w3_def cs3_def)
  qed
  have h3: "heap w3 p = Some c'"
    by (simp add: w3_def)
  have reg3: "\<not> registered x w \<Longrightarrow> \<not> registered x w3" for x
    by (simp add: w3_def cs2_def cs3_def registered_def registrations_def split: option.split)
  have "reactor_holds c' w3 = 0"
    using assms(3) reg3 by (simp add: reactor_holds_none c'_def)
  then have "reactor_holds c' w3 = 0 \<or> reactor_holds c' w3 < unat (retainCount c')"
    by simp
  from close_result [OF h3 this] \<open>reactor_holds c' w3 = 0\<close>
  have cl: "EchoContextClose (Some p) w3 =
      Inr (w3\<lparr>heap := (heap w3)(p \<mapsto> c'\<lparr>inStream := None, outStream := None, timer := None,
                 retainCount := retainCount c'\<rparr>),
            calls := calls w3 @ close_calls c'\<rparr>)"
    by simp
  have "EchoContextRelease (Some p) w =
      Inr (let w5 = emit [CFAllocatorDeallocate (alloc c') p]
                      ((w3\<lparr>heap := (heap w3)(p \<mapsto> c'\<lparr>inStream := None, outStream := None,
                           timer := None, retainCount := retainCount c'\<rparr>),
                         calls := calls w3 @ close_calls c'\<rparr>)\<lparr>heap := (heap w3)(p := None)\<rparr>)
           in case alloc c' of None \<Rightarrow> w5 | Some x \<Rightarrow> emit [CFRelease (Allocator x)] w5)"
    using zero
    by (subst release_eq) (simp add: assms(1) Let_def c'_def [symmetric] w2 dt cl)
  also have "\<dots> = Inr (w\<lparr>heap := (heap w)(p := None),
            calls := calls w
              @ (case rcvdBytes c of None \<Rightarrow> [] | Some d \<Rightarrow> [CFRelease (MutableData p)])
              @ (case timer c of None \<Rightarrow> [] | Some t \<Rightarrow>
                   [CFRunLoopTimerInvalidate t, CFRelease (RunLoopTimer t)])
              @ close_calls c
              @ [CFAllocatorDeallocate (alloc c) p]
              @ (case alloc c of None \<Rightarrow> [] | Some x \<Rightarrow> [CFRelease (Allocator x)])\<rparr>)"
    by (cases w) (simp add: w3_def cs2_def cs3_def c'_def emit_def Let_def split: option.split)
  finally show ?thesis .
qed

lemma deref_fault: "context \<noteq> None \<Longrightarrow> deref context w \<noteq> Inl NullDereference"
  by (auto simp add: deref_def split: option.splits)

lemma leave_read_fault:
  assumes "context \<noteq> None"
    and "\<And>s. inStream c = Some s \<Longrightarrow> registered (ReadStream s) w \<Longrightarrow>
           rel (emit [CFReadStreamSetClient s False] w) \<noteq> Inl NullDereference"
  shows "leave_read context rel c w \<noteq> Inl NullDereference"
  using assms deref_fault [OF assms(1)]
  by (auto simp add: leave_read_def split: option.splits sum.splits prod.splits)

lemma leave_write_fault:
  assumes "context \<noteq> None"
    and "\<And>s. outStream c = Some s \<Longrightarrow> registered (WriteStream s) w \<Longrightarrow>
           rel (emit [CFWriteStreamSetClient s False] w) \<noteq> Inl NullDereference"
  shows "leave_write context rel c w \<noteq> Inl NullDereference"
  using assms deref_fault [OF assms(1)]
  by (auto simp add: leave_write_def split: option.splits sum.splits prod.splits)

lemma leave_timer_fault:
  assumes "context \<noteq> None"
    and "\<And>t. timer c = Some t \<Longrightarrow> registered (RunLoopTimer t) w \<Longrightarrow>
           rel (emit [CFRunLoopTimerInvalidate t] w) \<noteq> Inl NullDereference"
  shows "leave_timer context rel c w \<noteq> Inl NullDereference"
  using assms deref_fault [OF assms(1)]
  by (auto simp add: leave_timer_def split: option.splits sum.splits prod.splits)

lemma drop_timer_fault:
  assumes "context \<noteq> None"
    and "\<And>t. timer c = Some t \<Longrightarrow> registered (RunLoopTimer t) w \<Longrightarrow>
           rel (emit [CFRunLoopTimerInvalidate t] w) \<noteq> Inl NullDereference"
  shows "drop_timer context rel c w \<noteq> Inl NullDereference"
  using assms deref_fault [OF assms(1)]
  by (auto simp add: drop_timer_def split: option.splits sum.splits prod.splits)

lemma close_release_fault:
  "ctx \<noteq> None \<longrightarrow> EchoContextClose ctx w \<noteq> Inl NullDereference"
  "ctx \<noteq> None \<longrightarrow> EchoContextRelease ctx w \<noteq> Inl NullDereference"
proof (induction rule: EchoContextClose_EchoContextRelease.induct)
  case (1 ctx w)
  show ?case
  proof (intro impI notI)
    assume nn: "ctx \<noteq> None" and bad: "EchoContextClose ctx w = Inl NullDereference"
    from bad deref_fault [OF nn, of w] obtain p c where d0: "deref ctx w = Inr (p, c)"
      by (subst (asm) close_eq) (auto split: sum.splits)
    have f1: "leave_read ctx (EchoContextRelease ctx) c w \<noteq> Inl NullDereference"
      by (rule leave_read_fault [OF nn]) (use "1.IH"(1) [OF d0 refl] nn in blast)
    with bad d0 obtain w1 where b1: "leave_read ctx (EchoContextRelease ctx) c w = Inr w1"
      by (subst (asm) close_eq) (auto split: sum.splits)
    from bad d0 b1 deref_fault [OF nn, of w1] obtain p1 c1 where
      d1: "deref ctx w1 = Inr (p1, c1)"
      by (subst (asm) close_eq) (auto split: sum.splits)
    have f2: "leave_write ctx (EchoContextRelease ctx) c1 w1 \<noteq> Inl NullDereference"
      by (rule leave_write_fault [OF nn])
        (use "1.IH"(2) [OF d0 refl b1 [unfolded leave_read_def] d1 refl] nn in blast)
    with bad d0 b1 d1 obtain w2 where
      b2: "leave_write ctx (EchoContextRelease ctx) c1 w1 = Inr w2"
      by (subst (asm) close_eq) (auto split: sum.splits)
    from bad d0 b1 d1 b2 deref_fault [OF nn, of w2] obtain p2 c2 where
      d2: "deref ctx w2 = Inr (p2, c2)"
      by (subst (asm) close_eq) (auto split: sum.splits)
    have f3: "leave_timer ctx (EchoContextRelease ctx) c2 w2 \<noteq> Inl NullDereference"
      by (rule leave_timer_fault [OF nn])
        (use "1.IH"(3) [OF d0 refl b1 [unfolded leave_read_def] d1 refl
              b2 [unfolded leave_write_def] d2 refl] nn in blast)
    with bad d0 b1 d1 b2 d2 show False
      by (subst (asm) close_eq) simp
  qed
next
  case (2 ctx w)
  show ?case
  proof (intro impI notI)
    assume nn: "ctx \<noteq> None" and bad: "EchoContextRelease ctx w = Inl NullDereference"
    from nn obtain p where ctx: "ctx = Some p"
      by auto
    from bad ctx obtain c0 where c0: "heap w p = Some c0"
      by (subst (asm) release_eq) (auto split: option.splits)
    define c where "c = c0\<lparr>retainCount := retainCount c0 - 1\<rparr>"
    define w1 where "w1 = store p c w"
    define w2 where "w2 = (case rcvdBytes c of
                              None \<Rightarrow> w1
                            | Some d \<Rightarrow> emit [CFRelease (MutableData p)] w1)"
    from bad ctx c0 have last: "\<not> 0 < retainCount c"
      by (subst (asm) release_eq) (auto simp add: c_def Let_def split: if_splits)
    have eq: "EchoContextRelease ctx w =
        (case drop_timer ctx (EchoContextRelease ctx) c w2 of
           Inl f \<Rightarrow> Inl f
         | Inr w3 \<Rightarrow>
             (case EchoContextClose ctx w3 of
                Inl f \<Rightarrow> Inl f
              | Inr w4 \<Rightarrow>
                  let w5 = emit [CFAllocatorDeallocate (alloc c0) p]
                             (w4\<lparr>heap := (heap w4)(p := None)\<rparr>)
                  in Inr (case alloc c0 of
                            None \<Rightarrow> w5
                          | Some x \<Rightarrow> emit [CFRelease (Allocator x)] w5)))"
      using ctx c0 last unfolding w2_def w1_def c_def
      by (subst release_eq) (simp add: Let_def)
    have f1: "drop_timer ctx (EchoContextRelease ctx) c w2 \<noteq> Inl NullDereference"
      by (rule drop_timer_fault [OF nn])
        (use "2.IH"(1) [OF ctx c0 c_def w1_def last refl w2_def] nn in blast)
    with bad eq obtain w3 where
      t: "drop_timer ctx (EchoContextRelease ctx) c w2 = Inr w3"
      by (cases "drop_timer ctx (EchoContextRelease ctx) c w2") auto
    have "EchoContextClose ctx w3 \<noteq> Inl NullDereference"
      using "2.IH"(2) [OF ctx c0 c_def w1_def last refl w2_def t [unfolded drop_timer_def]] nn
      by blast
    with bad eq t show False
      by (cases "EchoContextClose ctx w3") (auto simp add: Let_def)
  qed
qed



lemma closed_holds_none:
  "reactor_holds c (w\<lparr>heap := h, calls := calls w @ close_calls c\<rparr>) = 0"
  by (simp add: reactor_holds_none registered_def registrations_def close_calls_def
      split: option.split)


text \<open>C10: at the public interface the null argument is treated unevenly. Retain and
  release do nothing on a \<^verbatim>\<open>NULL\<close> context, and retain returns its argument; close reads the
  fields of its argument without a test, so on \<^verbatim>\<open>NULL\<close> it is a dereference of the null
  pointer, and \<^verbatim>\<open>NULL\<close> is the only argument on which it is one.\<close>

theorem null_argument_asymmetry:
  "EchoContextRetain None w = Inr (None, w) \<and>
   EchoContextRelease None w = Inr w \<and>
   EchoContextClose None w = Inl NullDereference \<and>
   (EchoContextClose context w' = Inl NullDereference) = (context = None)"
proof (cases "context")
  case None
  then show ?thesis
    by (simp add: EchoContextRetain_def release_null close_eq deref_def)
next
  case (Some p)
  with close_release_fault(1) [of "context" w']
  have "EchoContextClose context w' \<noteq> Inl NullDereference"
    by simp
  with Some show ?thesis
    by (simp add: EchoContextRetain_def release_null close_eq [of None] deref_def)
qed

text \<open>A context created and opened: the calls of \<^verbatim>\<open>EchoContextCreate\<close> and
  \<^verbatim>\<open>EchoContextOpen\<close>, when nothing fails, lead to the opened sample world with count \<open>4\<close>,
  where both streams and the timer hold a reference for the reactor. When the creator then
  releases its reference, the count is \<open>3\<close>: the reactor holds every reference there is, and
  the close of that context frees it and goes on to read it.\<close>

lemma create_then_open:
  "\<exists>w0. EchoContextCreate (Some 1) 5
          \<lparr>cr_allocated = Some 0, cr_inStream = Some 3, cr_outStream = Some 4, cr_data = True\<rparr>
          \<lparr>heap = Map.empty, inbound = [], outbound = [], calls = []\<rparr> = Inr (Some 0, w0) \<and>
        EchoContextOpen
          \<lparr>op_setRead = True, op_setWrite = True, op_openRead = True, op_openWrite = True,
           op_timer = Some 2, op_now = 0\<rparr> (Some 0) w0 = Inr (True, opened_world 4 [])"
  by (simp add: EchoContextCreate_def EchoContextOpen_def EchoContextRetain_def deref_def
      store_def emit_def Let_def opened_world_def sample_context_def kTimeOutInSeconds_def
      registered_def registrations_def)

lemma opened_registrations:
  "registrations (calls (opened_world n buf)) = [RunLoopTimer 2, WriteStream 4, ReadStream 3]"
  by (simp add: opened_world_def registrations_def)

lemma opened_holds: "reactor_holds (sample_context n buf) (opened_world n buf) = 3"
  by (simp add: reactor_holds_def registered_def opened_registrations sample_context_def)

lemma release_opened:
  "EchoContextRelease (Some 0) (opened_world 4 []) = Inr (opened_world 3 [])"
proof -
  have "heap (opened_world 4 []) 0 = Some (sample_context 4 [])"
    by (simp add: opened_world_def)
  from release_keep [OF this] show ?thesis
    by (simp add: opened_world_def sample_context_def)
qed

lemma close_unowned:
  "EchoContextClose (Some 0) (opened_world 3 []) = Inl UseAfterFree"
  by (simp add: close_eq release_eq leave_read_def leave_write_def leave_timer_def
      drop_timer_def deref_def store_def emit_def Let_def opened_world_def sample_context_def
      registered_def registrations_def)

text \<open>C8, as the code has it: close is idempotent on a context that outlives it. A close
  drops, through the reactor, one reference for each stream of the context that has a
  client and one for its timer; the context outlives the close when the reactor holds no
  such reference or fewer than the count. After one close of such a context in the store,
  both streams and the timer are absent: each that was present has been detached, closed
  and released (the calls of \<open>close_calls\<close>, in that order) and its field set to \<^verbatim>\<open>NULL\<close>,
  none of them holds a reference for the reactor any more, the count is less by the
  references the reactor held, and no other field has changed. A further close leaves the
  whole world as it is, the trace included. On a context whose channels are already absent
  the close makes no call on a stream: only the timer, if it is there, is invalidated and
  released.\<close>

theorem close_idempotent:
  assumes "heap w p = Some c"
    and "reactor_holds c w = 0 \<or> reactor_holds c w < unat (retainCount c)"
  shows "\<exists>w1 c1. EchoContextClose (Some p) w = Inr w1 \<and> heap w1 p = Some c1 \<and>
           inStream c1 = None \<and> outStream c1 = None \<and> timer c1 = None \<and>
           c1 = c\<lparr>inStream := None, outStream := None, timer := None,
                  retainCount := retainCount c - of_nat (reactor_holds c w)\<rparr> \<and>
           calls w1 = calls w @ close_calls c \<and>
           reactor_holds c w1 = 0 \<and>
           EchoContextClose (Some p) w1 = Inr w1 \<and>
           (inStream c = None \<and> outStream c = None \<longrightarrow>
              calls w1 = calls w @ (case timer c of None \<Rightarrow> []
                 | Some t \<Rightarrow> [CFRunLoopTimerInvalidate t, CFRelease (RunLoopTimer t)]))"
proof -
  let ?c1 = "c\<lparr>inStream := None, outStream := None, timer := None,
                retainCount := retainCount c - of_nat (reactor_holds c w)\<rparr>"
  let ?w1 = "w\<lparr>heap := (heap w)(p \<mapsto> ?c1), calls := calls w @ close_calls c\<rparr>"
  have first: "EchoContextClose (Some p) w = Inr ?w1"
    by (rule close_result [OF assms])
  have at: "heap ?w1 p = Some ?c1"
    by simp
  have gone: "reactor_holds c ?w1 = 0"
    by (rule closed_holds_none)
  have none: "reactor_holds ?c1 ?w1 = 0"
    by (simp add: reactor_holds_def)
  then have "reactor_holds ?c1 ?w1 = 0 \<or> reactor_holds ?c1 ?w1 < unat (retainCount ?c1)"
    by (rule disjI1)
  from close_result [OF at this]
  have "EchoContextClose (Some p) ?w1 =
      Inr (?w1\<lparr>heap := (heap ?w1)(p \<mapsto> ?c1\<lparr>inStream := None, outStream := None, timer := None,
                    retainCount := retainCount ?c1 - of_nat (reactor_holds ?c1 ?w1)\<rparr>),
               calls := calls ?w1 @ close_calls ?c1\<rparr>)" .
  also have "\<dots> = Inr ?w1"
    unfolding none by (simp add: close_calls_def)
  finally have second: "EchoContextClose (Some p) ?w1 = Inr ?w1" .
  have absent: "inStream c = None \<and> outStream c = None \<longrightarrow>
      calls ?w1 = calls w @ (case timer c of None \<Rightarrow> []
         | Some t \<Rightarrow> [CFRunLoopTimerInvalidate t, CFRelease (RunLoopTimer t)])"
    by (simp add: close_calls_def)
  from first at gone second absent show ?thesis
    by (intro exI [of _ ?w1] exI [of _ ?c1]) simp
qed

text \<open>The instances of C8: the context that has been created and opened, with two buffered
  bytes, of whose four references the reactor holds three, and a context that has no
  stream left and only its timer.\<close>

theorem close_idempotent_witness:
  "heap (opened_world 4 [104, 105]) 0 = Some (sample_context 4 [104, 105]) \<and>
   reactor_holds (sample_context 4 [104, 105]) (opened_world 4 [104, 105]) = 3 \<and>
   unat (retainCount (sample_context 4 [104, 105])) = 4 \<and>
   (\<exists>w1. EchoContextClose (Some 0) (opened_world 4 [104, 105]) = Inr w1 \<and>
      heap w1 0 = Some \<lparr>alloc = Some 1, retainCount = 1, timer = None, inStream = None,
        outStream = None, rcvdBytes = Some [104, 105]\<rparr> \<and>
      calls w1 = calls (opened_world 4 [104, 105]) @
       [CFReadStreamSetClient 3 False, CFReadStreamUnscheduleFromRunLoop 3,
        CFReadStreamClose 3, CFRelease (ReadStream 3), CFWriteStreamSetClient 4 False,
        CFWriteStreamUnscheduleFromRunLoop 4, CFWriteStreamClose 4, CFRelease (WriteStream 4),
        CFRunLoopTimerInvalidate 2, CFRelease (RunLoopTimer 2)] \<and>
      registrations (calls w1) = [] \<and>
      EchoContextClose (Some 0) w1 = Inr w1) \<and>
   heap \<lparr>heap = [0 \<mapsto> (sample_context 2 [])\<lparr>inStream := None, outStream := None\<rparr>],
         inbound = [], outbound = [], calls = []\<rparr> 0
     = Some ((sample_context 2 [])\<lparr>inStream := None, outStream := None\<rparr>) \<and>
   reactor_holds ((sample_context 2 [])\<lparr>inStream := None, outStream := None\<rparr>)
     \<lparr>heap = [0 \<mapsto> (sample_context 2 [])\<lparr>inStream := None, outStream := None\<rparr>],
      inbound = [], outbound = [], calls = []\<rparr> = 0 \<and>
   inStream ((sample_context 2 [])\<lparr>inStream := None, outStream := None\<rparr>) = None \<and>
   outStream ((sample_context 2 [])\<lparr>inStream := None, outStream := None\<rparr>) = None \<and>
   (\<exists>w1. EchoContextClose (Some 0)
          \<lparr>heap = [0 \<mapsto> (sample_context 2 [])\<lparr>inStream := None, outStream := None\<rparr>],
           inbound = [], outbound = [], calls = []\<rparr> = Inr w1 \<and>
      calls w1 = [CFRunLoopTimerInvalidate 2, CFRelease (RunLoopTimer 2)])"
proof -
  let ?o = "opened_world 4 [104, 105]"
  let ?s = "sample_context 4 [104, 105]"
  have h: "heap ?o 0 = Some ?s"
    by (simp add: opened_world_def)
  have k: "reactor_holds ?s ?o = 3"
    by (rule opened_holds)
  have n: "unat (retainCount ?s) = 4"
    by (simp add: sample_context_def)
  from k n have own: "reactor_holds ?s ?o = 0 \<or> reactor_holds ?s ?o < unat (retainCount ?s)"
    by simp
  from close_idempotent [OF h own] obtain w1 c1 where
    a1: "EchoContextClose (Some 0) ?o = Inr w1"
    and a2: "heap w1 0 = Some c1"
    and a3: "c1 = ?s\<lparr>inStream := None, outStream := None, timer := None,
                  retainCount := retainCount ?s - of_nat (reactor_holds ?s ?o)\<rparr>"
    and a4: "calls w1 = calls ?o @ close_calls ?s"
    and a5: "EchoContextClose (Some 0) w1 = Inr w1"
    by blast
  from a2 a3 [unfolded k] have b2: "heap w1 0 = Some \<lparr>alloc = Some 1, retainCount = 1, timer = None,
        inStream = None, outStream = None, rcvdBytes = Some [104, 105]\<rparr>"
    by (simp add: sample_context_def)
  from a4 have b4: "calls w1 = calls ?o @
       [CFReadStreamSetClient 3 False, CFReadStreamUnscheduleFromRunLoop 3,
        CFReadStreamClose 3, CFRelease (ReadStream 3), CFWriteStreamSetClient 4 False,
        CFWriteStreamUnscheduleFromRunLoop 4, CFWriteStreamClose 4, CFRelease (WriteStream 4),
        CFRunLoopTimerInvalidate 2, CFRelease (RunLoopTimer 2)]"
    by (simp add: close_calls_def sample_context_def)
  then have b6: "registrations (calls w1) = []"
    by (simp add: opened_world_def registrations_def)
  from a1 b2 b4 b6 a5
  have open_case: "\<exists>w1. EchoContextClose (Some 0) ?o = Inr w1 \<and>
      heap w1 0 = Some \<lparr>alloc = Some 1, retainCount = 1, timer = None, inStream = None,
        outStream = None, rcvdBytes = Some [104, 105]\<rparr> \<and>
      calls w1 = calls ?o @
       [CFReadStreamSetClient 3 False, CFReadStreamUnscheduleFromRunLoop 3,
        CFReadStreamClose 3, CFRelease (ReadStream 3), CFWriteStreamSetClient 4 False,
        CFWriteStreamUnscheduleFromRunLoop 4, CFWriteStreamClose 4, CFRelease (WriteStream 4),
        CFRunLoopTimerInvalidate 2, CFRelease (RunLoopTimer 2)] \<and>
      registrations (calls w1) = [] \<and>
      EchoContextClose (Some 0) w1 = Inr w1"
    by blast
  let ?c = "(sample_context 2 [])\<lparr>inStream := None, outStream := None\<rparr>"
  let ?w = "\<lparr>heap = [0 \<mapsto> ?c], inbound = [], outbound = [], calls = []\<rparr>"
  have g: "heap ?w 0 = Some ?c"
    by simp
  have z: "reactor_holds ?c ?w = 0"
    by (simp add: reactor_holds_def registered_def registrations_def sample_context_def)
  then have own': "reactor_holds ?c ?w = 0 \<or> reactor_holds ?c ?w < unat (retainCount ?c)"
    by (rule disjI1)
  have absent: "inStream ?c = None \<and> outStream ?c = None"
    by simp
  from close_idempotent [OF g own'] obtain w2 where
    closed: "EchoContextClose (Some 0) ?w = Inr w2"
    and part: "inStream ?c = None \<and> outStream ?c = None \<longrightarrow>
       calls w2 = calls ?w @ (case timer ?c of None \<Rightarrow> []
          | Some t \<Rightarrow> [CFRunLoopTimerInvalidate t, CFRelease (RunLoopTimer t)])"
    by blast
  from part absent have "calls w2 = calls ?w @ (case timer ?c of None \<Rightarrow> []
          | Some t \<Rightarrow> [CFRunLoopTimerInvalidate t, CFRelease (RunLoopTimer t)])"
    by (rule mp)
  then have "calls w2 = [CFRunLoopTimerInvalidate 2, CFRelease (RunLoopTimer 2)]"
    by (simp add: sample_context_def)
  with closed have closed_case: "\<exists>w1. EchoContextClose (Some 0) ?w = Inr w1 \<and>
      calls w1 = [CFRunLoopTimerInvalidate 2, CFRelease (RunLoopTimer 2)]"
    by blast
  from h k n open_case g z absent closed_case show ?thesis
    by blast
qed

text \<open>C8 as the claim states it fails: not every context that is not \<^verbatim>\<open>NULL\<close> is left
  closed by a close. A context is created and opened, which leaves it with count \<open>4\<close>, and
  its creator releases it: the count is \<open>3\<close> and the reactor holds all three references.
  The close of that context drops them one by one. The third release, made at the
  invalidation of the timer, is the last: it frees the context inside the close, which
  then reads the timer field of the freed context. No state is left in which a second
  close could find the context.\<close>

theorem close_by_last_owner_counterexample:
  "(\<exists>w0. EchoContextCreate (Some 1) 5
          \<lparr>cr_allocated = Some 0, cr_inStream = Some 3, cr_outStream = Some 4, cr_data = True\<rparr>
          \<lparr>heap = Map.empty, inbound = [], outbound = [], calls = []\<rparr> = Inr (Some 0, w0) \<and>
        EchoContextOpen
          \<lparr>op_setRead = True, op_setWrite = True, op_openRead = True, op_openWrite = True,
           op_timer = Some 2, op_now = 0\<rparr> (Some 0) w0 = Inr (True, opened_world 4 [])) \<and>
   EchoContextRelease (Some 0) (opened_world 4 []) = Inr (opened_world 3 []) \<and>
   heap (opened_world 3 []) 0 = Some (sample_context 3 []) \<and>
   EchoContextClose (Some 0) (opened_world 3 []) = Inl UseAfterFree"
  using create_then_open release_opened close_unowned
  by (simp add: opened_world_def)

section \<open>The retain count at zero\<close>

lemma word32_max: "(4294967295 :: UInt32) = - 1"
  by simp

lemma unat_word32_max: "unat (- 1 :: UInt32) = 4294967295"
proof -
  have "unat (4294967295 :: UInt32) = 4294967295"
    by simp
  then show ?thesis
    by (simp add: word32_max)
qed

text \<open>C9, as the code has it: a release of a context whose count is already \<open>0\<close> is not
  guarded. The decrement wraps the unsigned 32-bit count to \<open>2 ^ 32 - 1\<close>, the call returns
  with no fault, the context stays in the store with that count and no call is made: nothing
  is deallocated at that release.\<close>

theorem release_at_zero_wraps:
  assumes "heap w p = Some c" "retainCount c = 0"
  shows "\<exists>w'. EchoContextRelease (Some p) w = Inr w' \<and>
           heap w' p = Some (c\<lparr>retainCount := 4294967295\<rparr>) \<and>
           unat (retainCount c - 1) = 2 ^ 32 - 1 \<and>
           calls w' = calls w \<and> inbound w' = inbound w \<and> outbound w' = outbound w"
proof -
  from assms have "retainCount c \<noteq> 1"
    by simp
  from release_keep [OF assms(1) this] assms(2) show ?thesis
    by (simp add: word32_max unat_word32_max)
qed

text \<open>The instance on the sample context with count \<open>0\<close>.\<close>

theorem release_at_zero_wraps_witness:
  "heap (sample_world 0 [] []) 0 = Some (sample_context 0 []) \<and>
   retainCount (sample_context 0 []) = 0 \<and>
   (\<exists>w'. EchoContextRelease (Some 0) (sample_world 0 [] []) = Inr w' \<and>
      heap w' 0 = Some (sample_context 4294967295 []) \<and> calls w' = [])"
proof -
  have h: "heap (sample_world 0 [] []) 0 = Some (sample_context 0 [])"
    by (simp add: sample_world_def)
  have z: "retainCount (sample_context 0 []) = 0"
    by (simp add: sample_context_def)
  from release_at_zero_wraps [OF h z] show ?thesis
    by (auto simp add: sample_world_def sample_context_def word32_max)
qed

text \<open>C9 as the claim states it fails: on the sample context with count \<open>0\<close> the release
  does not stop at an assertion. It returns, and the count is \<open>4294967295\<close>.\<close>

theorem release_at_zero_counterexample:
  "EchoContextRelease (Some 0) (sample_world 0 [] []) =
     Inr \<lparr>heap = [0 \<mapsto> sample_context 4294967295 []], inbound = [], outbound = [], calls = []\<rparr> \<and>
   EchoContextRelease (Some 0) (sample_world 0 [] []) \<noteq> Inl AssertionFailed"
  by (simp add: release_eq sample_world_def sample_context_def store_def Let_def
      word32_max word_gt_0)

section \<open>End of stream, timeout and error\<close>



text \<open>C5: the handler of an error event only releases. On the sample context with two
  references, the event, delivered by either stream, takes one reference and makes no call
  at all: both streams and the timer are still in the context afterwards, not detached and
  not closed. On the context that has been created and opened it is the same: of the four
  references one is taken, and both streams and the timer still hold theirs for the
  reactor.\<close>

theorem error_occurred_releases_without_close:
  "EchoContextHandleErrorOccurred (Some 0) (sample_world 2 [] []) =
     Inr \<lparr>heap = [0 \<mapsto> sample_context 1 []], inbound = [], outbound = [], calls = []\<rparr> \<and>
   ReadStreamCallBack (Some 3) kCFStreamEventErrorOccurred
       \<lparr>io_now = 0, io_ready = 0, io_canAccept = False, io_avail = 0\<rparr> (Some 0)
       (sample_world 2 [] []) =
     Inr \<lparr>heap = [0 \<mapsto> sample_context 1 []], inbound = [], outbound = [], calls = []\<rparr> \<and>
   WriteStreamCallBack (Some 4) kCFStreamEventErrorOccurred
       \<lparr>io_now = 0, io_ready = 0, io_canAccept = False, io_avail = 0\<rparr> (Some 0)
       (sample_world 2 [] []) =
     Inr \<lparr>heap = [0 \<mapsto> sample_context 1 []], inbound = [], outbound = [], calls = []\<rparr> \<and>
   inStream (sample_context 1 []) = Some 3 \<and> outStream (sample_context 1 []) = Some 4 \<and>
   timer (sample_context 1 []) = Some 2 \<and>
   EchoContextHandleErrorOccurred (Some 0) (opened_world 4 []) = Inr (opened_world 3 []) \<and>
   registrations (calls (opened_world 3 [])) = [RunLoopTimer 2, WriteStream 4, ReadStream 3]"
  by (simp add: EchoContextHandleErrorOccurred_def ReadStreamCallBack_def WriteStreamCallBack_def
      deref_def release_eq sample_world_def sample_context_def store_def Let_def
      opened_world_def registrations_def)

section \<open>The flush\<close>

lemma memchr_None: "(memchr xs c (length xs) = None) = (c \<notin> set xs)"
  by (induction xs) auto

lemma memchr_Some:
  "(memchr xs c (length xs) = Some k) = (k < length xs \<and> xs ! k = c \<and> c \<notin> set (take k xs))"
proof (induction xs arbitrary: k)
  case Nil
  then show ?case by simp
next
  case (Cons x xs)
  show ?case
  proof (cases k)
    case 0
    then show ?thesis by auto
  next
    case (Suc j)
    with Cons [of j] show ?thesis by auto
  qed
qed

lemma flush_no_line:
  assumes "heap w p = Some c" "rcvdBytes c = Some buf" "timer c = Some t" "10 \<notin> set buf"
  shows "EchoContextHandleCanAcceptBytes e (Some p) w =
     Inr (w\<lparr>calls := calls w @ [CFRunLoopTimerSetNextFireDate t (io_now e + kTimeOutInSeconds)]\<rparr>)"
proof -
  from assms(4) have "memchr buf 10 (length buf) = None"
    by (simp add: memchr_None)
  with assms(1-3) show ?thesis
    by (simp add: EchoContextHandleCanAcceptBytes_def deref_def emit_def)
qed

lemma flush_line:
  assumes "heap w p = Some c" "rcvdBytes c = Some buf" "timer c = Some t"
    "outStream c = Some out"
    and "k < length buf" "buf ! k = 10" "10 \<notin> set (take k buf)"
    and "n = (if io_avail e < 0 then - 1 else min (io_avail e) (int (Suc k)))"
  shows "EchoContextHandleCanAcceptBytes e (Some p) w =
     Inr (w\<lparr>heap := (if 0 < n then (heap w)(p \<mapsto> c\<lparr>rcvdBytes := Some (drop (nat n) buf)\<rparr>)
                      else heap w),
            outbound := outbound w @ take (nat n) buf,
            calls := calls w @ [CFRunLoopTimerSetNextFireDate t (io_now e + kTimeOutInSeconds),
                                CFWriteStreamWriteCall out (take (Suc k) buf) n]\<rparr>)"
proof -
  from assms(5-7) have found: "memchr buf 10 (length buf) = Some k"
    by (simp add: memchr_Some)
  from assms(5) have len: "length (take (Suc k) buf) = Suc k"
    by simp
  have le: "nat n \<le> Suc k"
    using assms(8) by auto
  then have tk: "take (nat n) (take (Suc k) buf) = take (nat n) buf"
    by (simp add: min_def)
  have wr: "CFWriteStreamWrite out (take (Suc k) buf) (io_avail e) w0 =
      (n, w0\<lparr>outbound := outbound w0 @ take (nat n) buf,
             calls := calls w0 @ [CFWriteStreamWriteCall out (take (Suc k) buf) n]\<rparr>)" for w0
    unfolding CFWriteStreamWrite_def Let_def len assms(8) [symmetric] tk by simp
  from assms(1-4) found show ?thesis
    by (simp add: EchoContextHandleCanAcceptBytes_def deref_def emit_def wr store_def
        CFDataDeleteBytes_def)
qed

lemma first_terminator_unique:
  assumes "k < length buf" "buf ! k = (10::UInt8)" "10 \<notin> set (take k buf)"
    and "j < length buf" "buf ! j = 10" "10 \<notin> set (take j buf)"
  shows "j = k"
proof -
  from assms(1-3) have "memchr buf 10 (length buf) = Some k"
    by (simp add: memchr_Some)
  moreover from assms(4-6) have "memchr buf 10 (length buf) = Some j"
    by (simp add: memchr_Some)
  ultimately show ?thesis
    by simp
qed

lemma first_terminator_exists:
  assumes "(10::UInt8) \<in> set buf"
  shows "\<exists>k. k < length buf \<and> buf ! k = 10 \<and> 10 \<notin> set (take k buf)"
proof -
  from assms have "memchr buf 10 (length buf) \<noteq> None"
    by (simp add: memchr_None)
  then obtain k where "memchr buf 10 (length buf) = Some k"
    by blast
  then show ?thesis
    by (auto simp add: memchr_Some)
qed

lemma writes_snoc_write:
  "writes (cs @ [CFRunLoopTimerSetNextFireDate t d, CFWriteStreamWriteCall out bytes n]) =
     writes cs @ [bytes]"
  by (simp add: writes_def)

lemma writes_snoc_timer: "writes (cs @ [CFRunLoopTimerSetNextFireDate t d]) = writes cs"
  by (simp add: writes_def)

text \<open>C2: one flush on any buffer. When the buffer has no terminator, no write is attempted
  and the outbound channel receives nothing. When the first terminator is at offset \<open>k\<close>,
  the flush makes exactly one write attempt, and it offers the \<open>k + 1\<close> bytes from offset
  \<open>0\<close> to \<open>k\<close>: the line with its terminator, and nothing of what follows, whatever
  further terminators the buffer holds; what the channel receives is a prefix of that line.
  A buffer that starts with the terminator gives the one-byte line.\<close>

theorem flush_one_line_per_invocation:
  assumes "heap w p = Some c" "rcvdBytes c = Some buf" "timer c = Some t"
    "outStream c = Some out"
  shows "\<exists>w'. EchoContextHandleCanAcceptBytes e (Some p) w = Inr w' \<and>
     (10 \<notin> set buf \<longrightarrow> writes (calls w') = writes (calls w) \<and> outbound w' = outbound w) \<and>
     (\<forall>k. k < length buf \<and> buf ! k = 10 \<and> 10 \<notin> set (take k buf) \<longrightarrow>
          writes (calls w') = writes (calls w) @ [take (Suc k) buf] \<and>
          length (take (Suc k) buf) = k + 1 \<and>
          (\<exists>n\<le>k + 1. outbound w' = outbound w @ take n buf)) \<and>
     (\<forall>bs. buf = 10 # bs \<longrightarrow> writes (calls w') = writes (calls w) @ [[10]])"
proof (cases "10 \<in> set buf")
  case False
  have none: "\<not> (k < length buf \<and> buf ! k = 10)" for k
    using False by (metis nth_mem)
  have nohead: "buf \<noteq> 10 # bs" for bs
    using False by auto
  from False flush_no_line [OF assms(1-3), of e] none nohead show ?thesis
    by (auto simp add: writes_snoc_timer)
next
  case True
  from first_terminator_exists [OF this] obtain k
    where k: "k < length buf" "buf ! k = 10" "10 \<notin> set (take k buf)"
    by blast
  define n where "n = (if io_avail e < 0 then - 1 else min (io_avail e) (int (Suc k)))"
  define w' where "w' =
     w\<lparr>heap := (if 0 < n then (heap w)(p \<mapsto> c\<lparr>rcvdBytes := Some (drop (nat n) buf)\<rparr>)
                      else heap w),
            outbound := outbound w @ take (nat n) buf,
            calls := calls w @ [CFRunLoopTimerSetNextFireDate t (io_now e + kTimeOutInSeconds),
                                CFWriteStreamWriteCall out (take (Suc k) buf) n]\<rparr>"
  have step: "EchoContextHandleCanAcceptBytes e (Some p) w = Inr w'"
    unfolding w'_def by (rule flush_line [OF assms k n_def])
  have attempts: "writes (calls w') = writes (calls w) @ [take (Suc k) buf]"
    by (simp add: w'_def writes_snoc_write)
  have "nat n \<le> k + 1"
    by (auto simp add: n_def)
  then have wire: "\<exists>n\<le>k + 1. outbound w' = outbound w @ take n buf"
    by (intro exI [of _ "nat n"]) (simp add: w'_def)
  have only: "j = k" if "j < length buf \<and> buf ! j = 10 \<and> 10 \<notin> set (take j buf)" for j
    using that first_terminator_unique [OF k, of j] by blast
  have head: "take (Suc k) buf = [10]" if "buf = 10 # bs" for bs
  proof -
    from that have "0 < length buf \<and> buf ! 0 = 10 \<and> 10 \<notin> set (take 0 buf)"
      by simp
    from only [OF this] that show ?thesis
      by simp
  qed
  from k(1) have len: "length (take (Suc k) buf) = k + 1"
    by simp
  from step attempts wire only head len True show ?thesis
    by (intro exI [of _ w']) auto
qed

text \<open>The instances of C2: a buffer with two complete lines, of which one flush offers
  the first only; a buffer without a terminator; a buffer that starts with the
  terminator.\<close>

theorem flush_one_line_per_invocation_witness:
  "heap (sample_world 1 [104, 105, 10, 116, 104, 101, 114, 101, 10] []) 0
     = Some (sample_context 1 [104, 105, 10, 116, 104, 101, 114, 101, 10]) \<and>
   rcvdBytes (sample_context 1 [104, 105, 10, 116, 104, 101, 114, 101, 10])
     = Some [104, 105, 10, 116, 104, 101, 114, 101, 10] \<and>
   timer (sample_context 1 [104, 105, 10, 116, 104, 101, 114, 101, 10]) = Some 2 \<and>
   outStream (sample_context 1 [104, 105, 10, 116, 104, 101, 114, 101, 10]) = Some 4 \<and>
   (2::nat) < length [104, 105, 10, 116, 104, 101, 114, 101, 10 :: UInt8] \<and>
   [104, 105, 10, 116, 104, 101, 114, 101, 10 :: UInt8] ! 2 = 10 \<and>
   (10::UInt8) \<notin> set (take 2 [104, 105, 10, 116, 104, 101, 114, 101, 10]) \<and>
   (\<exists>w'. EchoContextHandleCanAcceptBytes
            \<lparr>io_now = 100, io_ready = 0, io_canAccept = True, io_avail = 4096\<rparr> (Some 0)
            (sample_world 1 [104, 105, 10, 116, 104, 101, 114, 101, 10] []) = Inr w' \<and>
      writes (calls w') = [[104, 105, 10]]) \<and>
   heap (sample_world 1 [97, 98, 99] []) 0 = Some (sample_context 1 [97, 98, 99]) \<and>
   rcvdBytes (sample_context 1 [97, 98, 99]) = Some [97, 98, 99] \<and>
   (10::UInt8) \<notin> set [97, 98, 99] \<and>
   (\<exists>w'. EchoContextHandleCanAcceptBytes
            \<lparr>io_now = 100, io_ready = 0, io_canAccept = True, io_avail = 4096\<rparr> (Some 0)
            (sample_world 1 [97, 98, 99] []) = Inr w' \<and>
      writes (calls w') = [] \<and> outbound w' = []) \<and>
   heap (sample_world 1 [10, 120] []) 0 = Some (sample_context 1 [10, 120]) \<and>
   rcvdBytes (sample_context 1 [10, 120]) = Some [10, 120] \<and>
   (\<exists>w'. EchoContextHandleCanAcceptBytes
            \<lparr>io_now = 100, io_ready = 0, io_canAccept = True, io_avail = 4096\<rparr> (Some 0)
            (sample_world 1 [10, 120] []) = Inr w' \<and>
      writes (calls w') = [[10]])"
proof -
  let ?buf = "[104, 105, 10, 116, 104, 101, 114, 101, 10] :: UInt8 list"
  have h1: "heap (sample_world 1 ?buf []) 0 = Some (sample_context 1 ?buf)"
    by (simp add: sample_world_def)
  have h2: "rcvdBytes (sample_context 1 ?buf) = Some ?buf"
    and h3: "timer (sample_context 1 ?buf) = Some 2"
    and h4: "outStream (sample_context 1 ?buf) = Some 4"
    by (simp_all add: sample_context_def)
  have first: "(2::nat) < length ?buf \<and> ?buf ! 2 = 10 \<and> 10 \<notin> set (take 2 ?buf)"
    by simp
  from flush_one_line_per_invocation [OF h1 h2 h3 h4,
      of "\<lparr>io_now = 100, io_ready = 0, io_canAccept = True, io_avail = 4096\<rparr>"]
  obtain w' where step: "EchoContextHandleCanAcceptBytes
        \<lparr>io_now = 100, io_ready = 0, io_canAccept = True, io_avail = 4096\<rparr> (Some 0)
        (sample_world 1 ?buf []) = Inr w'"
    and line: "\<forall>k. k < length ?buf \<and> ?buf ! k = 10 \<and> 10 \<notin> set (take k ?buf) \<longrightarrow>
          writes (calls w') = writes (calls (sample_world 1 ?buf [])) @ [take (Suc k) ?buf]"
    by blast
  from line first have "writes (calls w') = writes (calls (sample_world 1 ?buf [])) @ [take (Suc 2) ?buf]"
    by blast
  then have "writes (calls w') = [[104, 105, 10]]"
    by (simp add: sample_world_def writes_def)
  with step have one: "\<exists>w'. EchoContextHandleCanAcceptBytes
        \<lparr>io_now = 100, io_ready = 0, io_canAccept = True, io_avail = 4096\<rparr> (Some 0)
        (sample_world 1 ?buf []) = Inr w' \<and> writes (calls w') = [[104, 105, 10]]"
    by blast
  let ?abc = "[97, 98, 99] :: UInt8 list"
  have a1: "heap (sample_world 1 ?abc []) 0 = Some (sample_context 1 ?abc)"
    by (simp add: sample_world_def)
  have a2: "rcvdBytes (sample_context 1 ?abc) = Some ?abc"
    and a3: "timer (sample_context 1 ?abc) = Some 2"
    and a4: "outStream (sample_context 1 ?abc) = Some 4"
    by (simp_all add: sample_context_def)
  have absent: "(10::UInt8) \<notin> set ?abc"
    by simp
  from flush_one_line_per_invocation [OF a1 a2 a3 a4,
      of "\<lparr>io_now = 100, io_ready = 0, io_canAccept = True, io_avail = 4096\<rparr>"]
  obtain wa where stepa: "EchoContextHandleCanAcceptBytes
        \<lparr>io_now = 100, io_ready = 0, io_canAccept = True, io_avail = 4096\<rparr> (Some 0)
        (sample_world 1 ?abc []) = Inr wa"
    and quiet: "10 \<notin> set ?abc \<longrightarrow> writes (calls wa) = writes (calls (sample_world 1 ?abc []))
        \<and> outbound wa = outbound (sample_world 1 ?abc [])"
    by blast
  from quiet absent have "writes (calls wa) = writes (calls (sample_world 1 ?abc []))
        \<and> outbound wa = outbound (sample_world 1 ?abc [])"
    by (rule mp)
  then have "writes (calls wa) = [] \<and> outbound wa = []"
    by (simp add: sample_world_def writes_def)
  with stepa have none: "\<exists>w'. EchoContextHandleCanAcceptBytes
        \<lparr>io_now = 100, io_ready = 0, io_canAccept = True, io_avail = 4096\<rparr> (Some 0)
        (sample_world 1 ?abc []) = Inr w' \<and> writes (calls w') = [] \<and> outbound w' = []"
    by blast
  let ?nl = "[10, 120] :: UInt8 list"
  have b1: "heap (sample_world 1 ?nl []) 0 = Some (sample_context 1 ?nl)"
    by (simp add: sample_world_def)
  have b2: "rcvdBytes (sample_context 1 ?nl) = Some ?nl"
    and b3: "timer (sample_context 1 ?nl) = Some 2"
    and b4: "outStream (sample_context 1 ?nl) = Some 4"
    by (simp_all add: sample_context_def)
  from flush_one_line_per_invocation [OF b1 b2 b3 b4,
      of "\<lparr>io_now = 100, io_ready = 0, io_canAccept = True, io_avail = 4096\<rparr>"]
  obtain wb where stepb: "EchoContextHandleCanAcceptBytes
        \<lparr>io_now = 100, io_ready = 0, io_canAccept = True, io_avail = 4096\<rparr> (Some 0)
        (sample_world 1 ?nl []) = Inr wb"
    and empty: "\<forall>bs. ?nl = 10 # bs \<longrightarrow>
        writes (calls wb) = writes (calls (sample_world 1 ?nl [])) @ [[10]]"
    by blast
  from empty have "writes (calls wb) = writes (calls (sample_world 1 ?nl [])) @ [[10]]"
    by blast
  then have "writes (calls wb) = [[10]]"
    by (simp add: sample_world_def writes_def)
  with stepb have lone: "\<exists>w'. EchoContextHandleCanAcceptBytes
        \<lparr>io_now = 100, io_ready = 0, io_canAccept = True, io_avail = 4096\<rparr> (Some 0)
        (sample_world 1 ?nl []) = Inr w' \<and> writes (calls w') = [[10]]"
    by blast
  from h1 h2 h3 h4 first one a1 a2 absent none b1 b2 lone show ?thesis
    by blast
qed

text \<open>C3: a flush only ever removes from the buffer the prefix that the outbound channel
  has accepted. What the channel holds followed by the buffer is the same byte sequence
  before and after. Without a terminator the buffer and the channel are unchanged. With the
  first terminator at \<open>k\<close> there is one write with an answer \<open>written\<close>: when it is zero
  or negative the buffer is unchanged, and when it is positive exactly the first
  \<open>written\<close> bytes leave the buffer and are the bytes the channel received. After a
  partial write the next flush offers exactly the rest of the line.\<close>

theorem flush_truncates_accepted_prefix:
  assumes "heap w p = Some c" "rcvdBytes c = Some buf" "timer c = Some t"
    "outStream c = Some out"
  shows "\<exists>w'. EchoContextHandleCanAcceptBytes e (Some p) w = Inr w' \<and>
     outbound w' @ receiveBuffer p w' = outbound w @ buf \<and>
     (10 \<notin> set buf \<longrightarrow> receiveBuffer p w' = buf \<and> outbound w' = outbound w) \<and>
     (\<forall>k. k < length buf \<and> buf ! k = 10 \<and> 10 \<notin> set (take k buf) \<longrightarrow>
        (\<exists>written.
           calls w' = calls w @
             [CFRunLoopTimerSetNextFireDate t (io_now e + kTimeOutInSeconds),
              CFWriteStreamWriteCall out (take (k + 1) buf) written] \<and>
           written \<le> int (k + 1) \<and>
           (written \<le> 0 \<longrightarrow> receiveBuffer p w' = buf \<and> outbound w' = outbound w) \<and>
           (0 < written \<longrightarrow>
              receiveBuffer p w' = drop (nat written) buf \<and>
              outbound w' = outbound w @ take (nat written) buf) \<and>
           (0 < written \<and> written < int (k + 1) \<longrightarrow>
              (\<forall>e'. \<exists>w''. EchoContextHandleCanAcceptBytes e' (Some p) w' = Inr w'' \<and>
                 writes (calls w'') = writes (calls w') @ [drop (nat written) (take (k + 1) buf)]))))"
proof (cases "10 \<in> set buf")
  case False
  have none: "\<not> (k < length buf \<and> buf ! k = 10 \<and> 10 \<notin> set (take k buf))" for k
    using False by (metis nth_mem)
  from False flush_no_line [OF assms(1-3), of e] assms(1,2) none show ?thesis
    by (auto simp add: receiveBuffer_def)
next
  case True
  from first_terminator_exists [OF this] obtain k
    where k: "k < length buf" "buf ! k = 10" "10 \<notin> set (take k buf)"
    by blast
  define n where "n = (if io_avail e < 0 then - 1 else min (io_avail e) (int (Suc k)))"
  define w' where "w' =
     w\<lparr>heap := (if 0 < n then (heap w)(p \<mapsto> c\<lparr>rcvdBytes := Some (drop (nat n) buf)\<rparr>)
                      else heap w),
            outbound := outbound w @ take (nat n) buf,
            calls := calls w @ [CFRunLoopTimerSetNextFireDate t (io_now e + kTimeOutInSeconds),
                                CFWriteStreamWriteCall out (take (Suc k) buf) n]\<rparr>"
  have step: "EchoContextHandleCanAcceptBytes e (Some p) w = Inr w'"
    unfolding w'_def by (rule flush_line [OF assms k n_def])
  have bound: "n \<le> int (k + 1)"
    by (simp add: n_def)
  have trace: "calls w' = calls w @
             [CFRunLoopTimerSetNextFireDate t (io_now e + kTimeOutInSeconds),
              CFWriteStreamWriteCall out (take (k + 1) buf) n]"
    by (simp add: w'_def)
  have refused: "receiveBuffer p w' = buf \<and> outbound w' = outbound w" if "n \<le> 0"
    using that assms(1,2) by (simp add: w'_def receiveBuffer_def)
  have accepted: "receiveBuffer p w' = drop (nat n) buf \<and>
      outbound w' = outbound w @ take (nat n) buf" if "0 < n"
    using that by (simp add: w'_def receiveBuffer_def)
  have kept: "outbound w' @ receiveBuffer p w' = outbound w @ buf"
    using refused accepted by (cases "0 < n") simp_all
  have retry: "\<exists>w''. EchoContextHandleCanAcceptBytes e' (Some p) w' = Inr w'' \<and>
       writes (calls w'') = writes (calls w') @ [drop (nat n) (take (k + 1) buf)]"
    if part: "0 < n \<and> n < int (k + 1)" for e'
  proof -
    define m where "m = nat n"
    from part have m: "0 < m" "m \<le> k"
      unfolding m_def by linarith+
    define c' where "c' = c\<lparr>rcvdBytes := Some (drop m buf)\<rparr>"
    from part have at: "heap w' p = Some c'"
      by (simp add: w'_def c'_def m_def)
    have fields: "rcvdBytes c' = Some (drop m buf)" "timer c' = Some t" "outStream c' = Some out"
      using assms by (simp_all add: c'_def)
    from k(1) m have k1: "k - m < length (drop m buf)"
      by simp
    from k(1,2) m have k2: "drop m buf ! (k - m) = 10"
      by simp
    have "set (take (k - m) (drop m buf)) \<subseteq> set (take k buf)"
      using m by (metis drop_take set_drop_subset)
    with k(3) have k3: "10 \<notin> set (take (k - m) (drop m buf))"
      by blast
    from m have "Suc k - m = Suc (k - m)"
      by simp
    then have line: "take (Suc (k - m)) (drop m buf) = drop m (take (k + 1) buf)"
      by (simp add: drop_take)
    from flush_line [OF at fields k1 k2 k3 refl, of e']
    have "\<exists>w''. EchoContextHandleCanAcceptBytes e' (Some p) w' = Inr w'' \<and>
       writes (calls w'') = writes (calls w') @ [take (Suc (k - m)) (drop m buf)]"
      by (simp add: writes_snoc_write)
    then have "\<exists>w''. EchoContextHandleCanAcceptBytes e' (Some p) w' = Inr w'' \<and>
       writes (calls w'') = writes (calls w') @ [drop m (take (k + 1) buf)]"
      by (simp only: line)
    then show ?thesis
      by (simp only: m_def)
  qed
  have only: "j = k" if "j < length buf \<and> buf ! j = 10 \<and> 10 \<notin> set (take j buf)" for j
    using that first_terminator_unique [OF k, of j] by blast
  from step kept bound trace refused accepted retry only True show ?thesis
    by (intro exI [of _ w']) (auto intro!: exI [of _ n])
qed

text \<open>The instances of C3: the channel takes two of the three bytes of a line, and the
  terminator stays at the front of the buffer and is what the next flush offers; the channel
  takes nothing; the buffer has no terminator.\<close>

theorem flush_truncates_accepted_prefix_witness:
  "heap (sample_world 1 [111, 107, 10] []) 0 = Some (sample_context 1 [111, 107, 10]) \<and>
   rcvdBytes (sample_context 1 [111, 107, 10]) = Some [111, 107, 10] \<and>
   timer (sample_context 1 [111, 107, 10]) = Some 2 \<and>
   outStream (sample_context 1 [111, 107, 10]) = Some 4 \<and>
   (2::nat) < length [111, 107, 10 :: UInt8] \<and> [111, 107, 10 :: UInt8] ! 2 = 10 \<and>
   (10::UInt8) \<notin> set (take 2 [111, 107, 10]) \<and>
   (\<exists>w'. EchoContextHandleCanAcceptBytes
            \<lparr>io_now = 100, io_ready = 0, io_canAccept = True, io_avail = 2\<rparr> (Some 0)
            (sample_world 1 [111, 107, 10] []) = Inr w' \<and>
      calls w' = [CFRunLoopTimerSetNextFireDate 2 160,
                  CFWriteStreamWriteCall 4 [111, 107, 10] 2] \<and>
      (0::int) < 2 \<and> (2::int) < int (2 + 1) \<and>
      receiveBuffer 0 w' = [10] \<and> outbound w' = [111, 107] \<and>
      (\<exists>w''. EchoContextHandleCanAcceptBytes
            \<lparr>io_now = 101, io_ready = 0, io_canAccept = True, io_avail = 2\<rparr> (Some 0) w'
              = Inr w'' \<and>
         writes (calls w'') = [[111, 107, 10], [10]])) \<and>
   (\<exists>w'. EchoContextHandleCanAcceptBytes
            \<lparr>io_now = 100, io_ready = 0, io_canAccept = True, io_avail = 0\<rparr> (Some 0)
            (sample_world 1 [111, 107, 10] []) = Inr w' \<and>
      calls w' = [CFRunLoopTimerSetNextFireDate 2 160,
                  CFWriteStreamWriteCall 4 [111, 107, 10] 0] \<and>
      receiveBuffer 0 w' = [111, 107, 10] \<and> outbound w' = []) \<and>
   heap (sample_world 1 [97, 98, 99] []) 0 = Some (sample_context 1 [97, 98, 99]) \<and>
   rcvdBytes (sample_context 1 [97, 98, 99]) = Some [97, 98, 99] \<and>
   (10::UInt8) \<notin> set [97, 98, 99] \<and>
   (\<exists>w'. EchoContextHandleCanAcceptBytes
            \<lparr>io_now = 100, io_ready = 0, io_canAccept = True, io_avail = 2\<rparr> (Some 0)
            (sample_world 1 [97, 98, 99] []) = Inr w' \<and>
      receiveBuffer 0 w' = [97, 98, 99] \<and> outbound w' = [])"
proof -
  let ?buf = "[111, 107, 10] :: UInt8 list"
  let ?e = "\<lparr>io_now = 100, io_ready = 0, io_canAccept = True, io_avail = 2\<rparr>"
  let ?e' = "\<lparr>io_now = 101, io_ready = 0, io_canAccept = True, io_avail = 2\<rparr>"
  have h1: "heap (sample_world 1 ?buf []) 0 = Some (sample_context 1 ?buf)"
    by (simp add: sample_world_def)
  have h2: "rcvdBytes (sample_context 1 ?buf) = Some ?buf"
    and h3: "timer (sample_context 1 ?buf) = Some 2"
    and h4: "outStream (sample_context 1 ?buf) = Some 4"
    by (simp_all add: sample_context_def)
  have first: "(2::nat) < length ?buf \<and> ?buf ! 2 = 10 \<and> 10 \<notin> set (take 2 ?buf)"
    by simp
  from flush_truncates_accepted_prefix [OF h1 h2 h3 h4, of ?e]
  obtain w' where step: "EchoContextHandleCanAcceptBytes ?e (Some 0) (sample_world 1 ?buf []) = Inr w'"
    and line: "\<forall>k. k < length ?buf \<and> ?buf ! k = 10 \<and> 10 \<notin> set (take k ?buf) \<longrightarrow>
        (\<exists>written.
           calls w' = calls (sample_world 1 ?buf []) @
             [CFRunLoopTimerSetNextFireDate 2 (io_now ?e + kTimeOutInSeconds),
              CFWriteStreamWriteCall 4 (take (k + 1) ?buf) written] \<and>
           written \<le> int (k + 1) \<and>
           (written \<le> 0 \<longrightarrow> receiveBuffer 0 w' = ?buf
              \<and> outbound w' = outbound (sample_world 1 ?buf [])) \<and>
           (0 < written \<longrightarrow>
              receiveBuffer 0 w' = drop (nat written) ?buf \<and>
              outbound w' = outbound (sample_world 1 ?buf []) @ take (nat written) ?buf) \<and>
           (0 < written \<and> written < int (k + 1) \<longrightarrow>
              (\<forall>e'. \<exists>w''. EchoContextHandleCanAcceptBytes e' (Some 0) w' = Inr w'' \<and>
                 writes (calls w'') = writes (calls w') @ [drop (nat written) (take (k + 1) ?buf)])))"
    by blast
  from line first obtain written where
    trace: "calls w' = calls (sample_world 1 ?buf []) @
             [CFRunLoopTimerSetNextFireDate 2 (io_now ?e + kTimeOutInSeconds),
              CFWriteStreamWriteCall 4 (take (2 + 1) ?buf) written]"
    and accepted: "0 < written \<longrightarrow>
              receiveBuffer 0 w' = drop (nat written) ?buf \<and>
              outbound w' = outbound (sample_world 1 ?buf []) @ take (nat written) ?buf"
    and retry: "0 < written \<and> written < int (2 + 1) \<longrightarrow>
              (\<forall>e'. \<exists>w''. EchoContextHandleCanAcceptBytes e' (Some 0) w' = Inr w'' \<and>
                 writes (calls w'') = writes (calls w') @ [drop (nat written) (take (2 + 1) ?buf)])"
    by blast
  have "EchoContextHandleCanAcceptBytes ?e (Some 0) (sample_world 1 ?buf []) =
      Inr \<lparr>heap = [0 \<mapsto> sample_context 1 [10]], inbound = [], outbound = [111, 107],
           calls = [CFRunLoopTimerSetNextFireDate 2 160,
                    CFWriteStreamWriteCall 4 [111, 107, 10] 2]\<rparr>"
    by (simp add: EchoContextHandleCanAcceptBytes_def deref_def sample_world_def
        sample_context_def emit_def store_def CFWriteStreamWrite_def CFDataDeleteBytes_def
        kTimeOutInSeconds_def)
  with step have w': "w' = \<lparr>heap = [0 \<mapsto> sample_context 1 [10]], inbound = [],
           outbound = [111, 107],
           calls = [CFRunLoopTimerSetNextFireDate 2 160,
                    CFWriteStreamWriteCall 4 [111, 107, 10] 2]\<rparr>"
    by simp
  with trace have two: "written = 2"
    by (simp add: sample_world_def)
  from accepted two have moved: "receiveBuffer 0 w' = [10] \<and> outbound w' = [111, 107]"
    by (simp add: sample_world_def)
  have cond: "0 < written \<and> written < int (2 + 1)"
    using two by simp
  from retry cond have "\<forall>e'. \<exists>w''. EchoContextHandleCanAcceptBytes e' (Some 0) w' = Inr w'' \<and>
       writes (calls w'') = writes (calls w') @ [drop (nat written) (take (2 + 1) ?buf)]"
    by (rule mp)
  then have "\<exists>w''. EchoContextHandleCanAcceptBytes ?e' (Some 0) w' = Inr w'' \<and>
       writes (calls w'') = writes (calls w') @ [drop (nat written) (take (2 + 1) ?buf)]"
    by (rule spec)
  then have again: "\<exists>w''. EchoContextHandleCanAcceptBytes ?e' (Some 0) w' = Inr w'' \<and>
       writes (calls w'') = [[111, 107, 10], [10]]"
    unfolding two by (simp add: w' writes_def)
  have trace': "calls w' = [CFRunLoopTimerSetNextFireDate 2 160,
                  CFWriteStreamWriteCall 4 [111, 107, 10] 2]"
    by (simp add: w')
  have "(0::int) < 2 \<and> (2::int) < int (2 + 1)"
    by simp
  with step trace' moved again have partial: "\<exists>w'. EchoContextHandleCanAcceptBytes ?e (Some 0)
        (sample_world 1 ?buf []) = Inr w' \<and>
      calls w' = [CFRunLoopTimerSetNextFireDate 2 160,
                  CFWriteStreamWriteCall 4 [111, 107, 10] 2] \<and>
      (0::int) < 2 \<and> (2::int) < int (2 + 1) \<and>
      receiveBuffer 0 w' = [10] \<and> outbound w' = [111, 107] \<and>
      (\<exists>w''. EchoContextHandleCanAcceptBytes ?e' (Some 0) w' = Inr w'' \<and>
         writes (calls w'') = [[111, 107, 10], [10]])"
    by blast
  let ?z = "\<lparr>io_now = 100, io_ready = 0, io_canAccept = True, io_avail = 0\<rparr>"
  from flush_truncates_accepted_prefix [OF h1 h2 h3 h4, of ?z]
  obtain wz where stepz: "EchoContextHandleCanAcceptBytes ?z (Some 0) (sample_world 1 ?buf []) = Inr wz"
    and linez: "\<forall>k. k < length ?buf \<and> ?buf ! k = 10 \<and> 10 \<notin> set (take k ?buf) \<longrightarrow>
        (\<exists>written.
           calls wz = calls (sample_world 1 ?buf []) @
             [CFRunLoopTimerSetNextFireDate 2 (io_now ?z + kTimeOutInSeconds),
              CFWriteStreamWriteCall 4 (take (k + 1) ?buf) written] \<and>
           written \<le> int (k + 1) \<and>
           (written \<le> 0 \<longrightarrow> receiveBuffer 0 wz = ?buf
              \<and> outbound wz = outbound (sample_world 1 ?buf [])))"
    by blast
  from linez first obtain refused where
    tracez: "calls wz = calls (sample_world 1 ?buf []) @
             [CFRunLoopTimerSetNextFireDate 2 (io_now ?z + kTimeOutInSeconds),
              CFWriteStreamWriteCall 4 (take (2 + 1) ?buf) refused]"
    and kept: "refused \<le> 0 \<longrightarrow> receiveBuffer 0 wz = ?buf
              \<and> outbound wz = outbound (sample_world 1 ?buf [])"
    by blast
  have "EchoContextHandleCanAcceptBytes ?z (Some 0) (sample_world 1 ?buf []) =
      Inr \<lparr>heap = [0 \<mapsto> sample_context 1 ?buf], inbound = [], outbound = [],
           calls = [CFRunLoopTimerSetNextFireDate 2 160,
                    CFWriteStreamWriteCall 4 [111, 107, 10] 0]\<rparr>"
    by (simp add: EchoContextHandleCanAcceptBytes_def deref_def sample_world_def
        sample_context_def emit_def store_def CFWriteStreamWrite_def CFDataDeleteBytes_def
        kTimeOutInSeconds_def)
  with stepz have wz: "calls wz = [CFRunLoopTimerSetNextFireDate 2 160,
                    CFWriteStreamWriteCall 4 [111, 107, 10] 0]"
    by auto
  with tracez have "refused = 0"
    by (simp add: sample_world_def)
  with kept have "receiveBuffer 0 wz = ?buf \<and> outbound wz = []"
    by (simp add: sample_world_def)
  with stepz wz have untouched: "\<exists>w'. EchoContextHandleCanAcceptBytes ?z (Some 0)
        (sample_world 1 ?buf []) = Inr w' \<and>
      calls w' = [CFRunLoopTimerSetNextFireDate 2 160,
                  CFWriteStreamWriteCall 4 [111, 107, 10] 0] \<and>
      receiveBuffer 0 w' = [111, 107, 10] \<and> outbound w' = []"
    by blast
  let ?abc = "[97, 98, 99] :: UInt8 list"
  have a1: "heap (sample_world 1 ?abc []) 0 = Some (sample_context 1 ?abc)"
    by (simp add: sample_world_def)
  have a2: "rcvdBytes (sample_context 1 ?abc) = Some ?abc"
    and a3: "timer (sample_context 1 ?abc) = Some 2"
    and a4: "outStream (sample_context 1 ?abc) = Some 4"
    by (simp_all add: sample_context_def)
  have absent: "(10::UInt8) \<notin> set ?abc"
    by simp
  from flush_truncates_accepted_prefix [OF a1 a2 a3 a4, of ?e]
  obtain wa where stepa: "EchoContextHandleCanAcceptBytes ?e (Some 0) (sample_world 1 ?abc []) = Inr wa"
    and quiet: "10 \<notin> set ?abc \<longrightarrow> receiveBuffer 0 wa = ?abc
        \<and> outbound wa = outbound (sample_world 1 ?abc [])"
    by blast
  from quiet absent have "receiveBuffer 0 wa = ?abc
        \<and> outbound wa = outbound (sample_world 1 ?abc [])"
    by (rule mp)
  then have "receiveBuffer 0 wa = ?abc \<and> outbound wa = []"
    by (simp add: sample_world_def)
  with stepa have still: "\<exists>w'. EchoContextHandleCanAcceptBytes ?e (Some 0)
        (sample_world 1 ?abc []) = Inr w' \<and>
      receiveBuffer 0 w' = [97, 98, 99] \<and> outbound w' = []"
    by blast
  from h1 h2 h3 h4 first partial untouched a1 a2 absent still show ?thesis
    by blast
qed

section \<open>The read and the timer\<close>

lemma read_result:
  assumes "heap w p = Some c" "rcvdBytes c = Some buf" "timer c = Some t"
    "inStream c = Some i" "outStream c = Some out"
    and "n = (if io_ready e < 0 then 0 else min (nat (io_ready e)) (min 2048 (length (inbound w))))"
    and "w3 = w\<lparr>heap := (heap w)(p \<mapsto> c\<lparr>rcvdBytes := Some (buf @ take n (inbound w))\<rparr>),
                  inbound := drop n (inbound w),
                  calls := calls w @ [CFRunLoopTimerSetNextFireDate t (io_now e + kTimeOutInSeconds)]\<rparr>"
  shows "EchoContextHandleHasBytesAvailable e (Some p) w =
     (if n = 0
      then Inr (w\<lparr>calls := calls w @ [CFRunLoopTimerSetNextFireDate t (io_now e + kTimeOutInSeconds)]\<rparr>)
      else if io_canAccept e then EchoContextHandleCanAcceptBytes e (Some p) w3 else Inr w3)"
proof (cases "io_ready e < 0")
  case True
  with assms show ?thesis
    by (simp add: EchoContextHandleHasBytesAvailable_def deref_def CFReadStreamRead_def emit_def)
next
  case False
  define m where "m = min (nat (io_ready e)) (min 2048 (length (inbound w)))"
  from False assms(6) have nm: "n = m"
    by (simp add: m_def)
  have rd: "CFReadStreamRead i 2048 (io_ready e) w =
      (int m, take m (inbound w), w\<lparr>inbound := drop m (inbound w)\<rparr>)"
    using False by (simp add: CFReadStreamRead_def m_def Let_def)
  show ?thesis
  proof (cases "m = 0")
    case True
    with assms(1-5) nm rd show ?thesis
      by (simp add: EchoContextHandleHasBytesAvailable_def deref_def emit_def)
  next
    case False
    have eq: "store p (c\<lparr>rcvdBytes := Some (buf @ take m (inbound w))\<rparr>)
        (emit [CFRunLoopTimerSetNextFireDate t (io_now e + kTimeOutInSeconds)]
           (w\<lparr>inbound := drop m (inbound w)\<rparr>)) = w3"
      unfolding assms(7) nm store_def emit_def by (cases w) simp
    from False assms(1-5) nm rd show ?thesis
      by (simp add: EchoContextHandleHasBytesAvailable_def deref_def CFDataAppendBytes_def eq)
  qed
qed

lemma nextFireDate_append:
  "nextFireDate (xs @ ys) t =
     (case nextFireDate ys t of Some d \<Rightarrow> Some d | None \<Rightarrow> nextFireDate xs t)"
proof (induction xs)
  case Nil
  then show ?case by (simp split: option.split)
next
  case (Cons x xs)
  then show ?case by (cases x) (simp_all split: option.split)
qed

lemma flush_sets_timer:
  assumes "heap w p = Some c" "rcvdBytes c = Some buf" "timer c = Some t"
    "outStream c = Some out"
  shows "\<exists>w'. EchoContextHandleCanAcceptBytes e (Some p) w = Inr w' \<and>
     nextFireDate (calls w') t = Some (io_now e + kTimeOutInSeconds)"
proof (cases "10 \<in> set buf")
  case False
  from flush_no_line [OF assms(1-3), of e] False show ?thesis
    by (simp add: nextFireDate_append)
next
  case True
  from first_terminator_exists [OF this] obtain k
    where k: "k < length buf" "buf ! k = 10" "10 \<notin> set (take k buf)"
    by blast
  from flush_line [OF assms k refl, of e] show ?thesis
    by (simp add: nextFireDate_append)
qed

text \<open>C4, as the code has it: every invocation of the handler of a readable event and of
  the handler of a writable event on an open context returns and leaves the timer set to
  fire at the time of the event plus the timeout of 60 seconds. In neither handler is the
  call that sets the date under a test: the handler of a readable event makes it after its
  read, whatever the read has answered, and the flush makes it before it looks for a line to
  write. So the date does not depend on whether a byte moved.\<close>

theorem timer_reset_on_every_data_event:
  assumes "heap w p = Some c" "rcvdBytes c = Some buf" "timer c = Some t"
    "inStream c = Some i" "outStream c = Some out"
  shows "(\<exists>w'. EchoContextHandleHasBytesAvailable e (Some p) w = Inr w' \<and>
            nextFireDate (calls w') t = Some (io_now e + 60)) \<and>
         (\<exists>w'. EchoContextHandleCanAcceptBytes e (Some p) w = Inr w' \<and>
            nextFireDate (calls w') t = Some (io_now e + 60))"
proof -
  define n where "n = (if io_ready e < 0 then 0
     else min (nat (io_ready e)) (min 2048 (length (inbound w))))"
  define w3 where "w3 = w\<lparr>heap := (heap w)(p \<mapsto> c\<lparr>rcvdBytes := Some (buf @ take n (inbound w))\<rparr>),
                  inbound := drop n (inbound w),
                  calls := calls w @ [CFRunLoopTimerSetNextFireDate t (io_now e + kTimeOutInSeconds)]\<rparr>"
  note rd = read_result [OF assms n_def w3_def]
  have at3: "heap w3 p = Some (c\<lparr>rcvdBytes := Some (buf @ take n (inbound w))\<rparr>)"
    by (simp add: w3_def)
  have nested: "\<exists>w'. EchoContextHandleCanAcceptBytes e (Some p) w3 = Inr w' \<and>
     nextFireDate (calls w') t = Some (io_now e + kTimeOutInSeconds)"
    by (rule flush_sets_timer [OF at3]) (simp_all add: assms)
  have last3: "nextFireDate (calls w3) t = Some (io_now e + kTimeOutInSeconds)"
    by (simp add: w3_def nextFireDate_append)
  have "\<exists>w'. EchoContextHandleHasBytesAvailable e (Some p) w = Inr w' \<and>
            nextFireDate (calls w') t = Some (io_now e + kTimeOutInSeconds)"
  proof (cases "n = 0")
    case True
    with rd show ?thesis
      by (simp add: nextFireDate_append)
  next
    case False
    with rd nested last3 show ?thesis
      by (cases "io_canAccept e") simp_all
  qed
  moreover note flush_sets_timer [OF assms(1,2,3,5), of e]
  ultimately show ?thesis
    by (simp add: kTimeOutInSeconds_def)
qed

text \<open>The instance of C4 at time \<open>100\<close>, on a buffer without a terminator and a read
  that finds nothing.\<close>

theorem timer_reset_on_every_data_event_witness:
  "heap (sample_world 1 [97, 98, 99] []) 0 = Some (sample_context 1 [97, 98, 99]) \<and>
   rcvdBytes (sample_context 1 [97, 98, 99]) = Some [97, 98, 99] \<and>
   timer (sample_context 1 [97, 98, 99]) = Some 2 \<and>
   inStream (sample_context 1 [97, 98, 99]) = Some 3 \<and>
   outStream (sample_context 1 [97, 98, 99]) = Some 4 \<and>
   (\<exists>w'. EchoContextHandleHasBytesAvailable
        \<lparr>io_now = 100, io_ready = 0, io_canAccept = True, io_avail = 0\<rparr> (Some 0)
        (sample_world 1 [97, 98, 99] []) = Inr w' \<and>
      nextFireDate (calls w') 2 = Some 160) \<and>
   (\<exists>w'. EchoContextHandleCanAcceptBytes
        \<lparr>io_now = 100, io_ready = 0, io_canAccept = True, io_avail = 0\<rparr> (Some 0)
        (sample_world 1 [97, 98, 99] []) = Inr w' \<and>
      nextFireDate (calls w') 2 = Some 160)"
proof -
  let ?buf = "[97, 98, 99] :: UInt8 list"
  have h1: "heap (sample_world 1 ?buf []) 0 = Some (sample_context 1 ?buf)"
    by (simp add: sample_world_def)
  have h2: "rcvdBytes (sample_context 1 ?buf) = Some ?buf"
    and h3: "timer (sample_context 1 ?buf) = Some 2"
    and h4: "inStream (sample_context 1 ?buf) = Some 3"
    and h5: "outStream (sample_context 1 ?buf) = Some 4"
    by (simp_all add: sample_context_def)
  from timer_reset_on_every_data_event [OF h1 h2 h3 h4 h5,
      of "\<lparr>io_now = 100, io_ready = 0, io_canAccept = True, io_avail = 0\<rparr>"]
    h1 h2 h3 h4 h5
  show ?thesis
    by simp
qed

text \<open>C4 as the claim states it fails. A line is written at time \<open>10\<close>, which sets the
  timer to \<open>70\<close>. A readable event at \<open>30\<close> reads nothing and a writable event at \<open>50\<close>
  finds nothing to write, yet each moves the fire date, to \<open>90\<close> and then to \<open>110\<close>:
  the window is not measured from the last byte that moved.\<close>

theorem timer_reset_without_io_counterexample:
  "run (Some 0)
     [CanAcceptBytes \<lparr>io_now = 10, io_ready = 0, io_canAccept = True, io_avail = 4096\<rparr>,
      HasBytesAvailable \<lparr>io_now = 30, io_ready = 0, io_canAccept = True, io_avail = 4096\<rparr>,
      CanAcceptBytes \<lparr>io_now = 50, io_ready = 0, io_canAccept = True, io_avail = 4096\<rparr>]
     (sample_world 1 [97, 10] []) =
     Inr \<lparr>heap = [0 \<mapsto> sample_context 1 []], inbound = [], outbound = [97, 10],
          calls = [CFRunLoopTimerSetNextFireDate 2 70, CFWriteStreamWriteCall 4 [97, 10] 2,
                   CFRunLoopTimerSetNextFireDate 2 90, CFRunLoopTimerSetNextFireDate 2 110]\<rparr> \<and>
   nextFireDate [CFRunLoopTimerSetNextFireDate 2 70, CFWriteStreamWriteCall 4 [97, 10] 2] 2
     = Some 70 \<and>
   nextFireDate [CFRunLoopTimerSetNextFireDate 2 70, CFWriteStreamWriteCall 4 [97, 10] 2,
                 CFRunLoopTimerSetNextFireDate 2 90, CFRunLoopTimerSetNextFireDate 2 110] 2
     = Some 110"
  by (simp add: EchoContextHandleCanAcceptBytes_def EchoContextHandleHasBytesAvailable_def
      deref_def sample_world_def sample_context_def emit_def store_def CFReadStreamRead_def
      CFWriteStreamWrite_def CFDataDeleteBytes_def kTimeOutInSeconds_def)

section \<open>The echo\<close>

lemma lines_from_no_terminator:
  "10 \<notin> set bs \<Longrightarrow> lines_from acc bs = [] \<and> rest_from acc bs = acc @ bs"
  by (induction bs arbitrary: acc) auto

lemma lines_from_terminated:
  "concat (lines_from acc (xs @ 10 # ys)) = acc @ xs @ 10 # concat (lines_from [] ys) \<and>
   rest_from acc (xs @ 10 # ys) = rest_from [] ys"
proof (induction xs arbitrary: acc)
  case Nil
  show ?case by simp
next
  case (Cons x xs)
  show ?case
  proof (cases "x = 10")
    case True
    with Cons [of "[]"] show ?thesis by simp
  next
    case False
    with Cons [of "acc @ [x]"] show ?thesis by simp
  qed
qed

lemma lines_of_written:
  assumes "out @ buf = sent" "10 \<notin> set buf" "out = [] \<or> last out = 10"
  shows "concat (lines_of sent) = out \<and> unterminated sent = buf"
proof (cases "out = []")
  case True
  with assms(1,2) lines_from_no_terminator [of buf "[]"] show ?thesis
    by (simp add: lines_of_def unterminated_def)
next
  case False
  with assms(3) have "out = butlast out @ [10]"
    by (metis append_butlast_last_id)
  with assms(1) have "sent = butlast out @ 10 # buf"
    by (metis append_Cons append_Nil append_assoc)
  with lines_from_terminated [of "[]" "butlast out" buf]
    lines_from_no_terminator [OF assms(2), of "[]"] \<open>out = butlast out @ [10]\<close>
  show ?thesis
    by (simp add: lines_of_def unterminated_def)
qed

text \<open>The lines and the rest are a split of the input: together they are the bytes in
  order, every line ends with its only terminator, and the rest has none.\<close>

lemma lines_from_sound:
  "concat (lines_from acc bs) @ rest_from acc bs = acc @ bs"
  by (induction bs arbitrary: acc) auto

lemma lines_from_shape:
  "10 \<notin> set acc \<Longrightarrow>
     (\<forall>l\<in>set (lines_from acc bs). l \<noteq> [] \<and> last l = 10 \<and> 10 \<notin> set (butlast l)) \<and>
     10 \<notin> set (rest_from acc bs)"
proof (induction bs arbitrary: acc)
  case Nil
  then show ?case by simp
next
  case (Cons b bs)
  show ?case
  proof (cases "b = 10")
    case True
    with Cons.prems Cons.IH [of "[]"] show ?thesis by simp
  next
    case False
    with Cons.prems Cons.IH [of "acc @ [b]"] show ?thesis by simp
  qed
qed

lemma count_after_line:
  assumes "k < length buf" "buf ! k = x" "x \<notin> set (take k buf)"
  shows "count_list (drop (Suc k) buf) x = count_list buf x - 1"
proof -
  from assms(1) have "buf = take k buf @ buf ! k # drop (Suc k) buf"
    by (rule id_take_nth_drop)
  then have "count_list buf x = count_list (take k buf @ buf ! k # drop (Suc k) buf) x"
    by simp
  also have "\<dots> = count_list (take k buf) x + count_list (buf ! k # drop (Suc k) buf) x"
    by (rule count_list_append)
  also from assms(2,3) have "\<dots> = Suc (count_list (drop (Suc k) buf) x)"
    by (simp add: count_list_0_iff [THEN iffD2])
  finally show ?thesis
    by simp
qed

lemma flush_step:
  assumes "is_open p w"
  shows "\<exists>w' cs. EchoContextHandleCanAcceptBytes e (Some p) w = Inr w' \<and> is_open p w' \<and>
     inbound w' = inbound w \<and>
     outbound w' @ receiveBuffer p w' = outbound w @ receiveBuffer p w \<and>
     (line_boundary p w \<longrightarrow> line_boundary p w') \<and>
     calls w' = calls w @ cs \<and>
     (list_all accepted_all cs \<longrightarrow>
        count_list (receiveBuffer p w') 10 = count_list (receiveBuffer p w) 10 - 1)"
proof -
  from assms obtain c buf t out
    where c: "heap w p = Some c" "rcvdBytes c = Some buf" "timer c = Some t"
      "outStream c = Some out" and i: "inStream c \<noteq> None"
    by (auto simp add: is_open_def split: option.splits)
  have rb: "receiveBuffer p w = buf"
    using c by (simp add: receiveBuffer_def)
  show ?thesis
  proof (cases "10 \<in> set buf")
    case False
    define w' where "w' =
      w\<lparr>calls := calls w @ [CFRunLoopTimerSetNextFireDate t (io_now e + kTimeOutInSeconds)]\<rparr>"
    have step: "EchoContextHandleCanAcceptBytes e (Some p) w = Inr w'"
      unfolding w'_def by (rule flush_no_line [OF c(1-3) False])
    have same: "heap w' = heap w" "inbound w' = inbound w" "outbound w' = outbound w"
      "calls w' = calls w @ [CFRunLoopTimerSetNextFireDate t (io_now e + kTimeOutInSeconds)]"
      by (simp_all add: w'_def)
    from same have keep: "is_open p w' = is_open p w" "receiveBuffer p w' = receiveBuffer p w"
      "line_boundary p w' = line_boundary p w"
      by (simp_all add: is_open_def receiveBuffer_def line_boundary_def)
    from False have "count_list buf 10 = 0"
      by (simp add: count_list_0_iff)
    with step same keep assms rb show ?thesis
      by (intro exI [of _ w'] exI [of _ "[CFRunLoopTimerSetNextFireDate t (io_now e + kTimeOutInSeconds)]"])
        simp
  next
    case True
    from first_terminator_exists [OF this] obtain k
      where k: "k < length buf" "buf ! k = 10" "10 \<notin> set (take k buf)"
      by blast
    define n where "n = (if io_avail e < 0 then - 1 else min (io_avail e) (int (Suc k)))"
    define cs where "cs = [CFRunLoopTimerSetNextFireDate t (io_now e + kTimeOutInSeconds),
                                CFWriteStreamWriteCall out (take (Suc k) buf) n]"
    define w' where "w' =
       w\<lparr>heap := (if 0 < n then (heap w)(p \<mapsto> c\<lparr>rcvdBytes := Some (drop (nat n) buf)\<rparr>)
                      else heap w),
            outbound := outbound w @ take (nat n) buf,
            calls := calls w @ cs\<rparr>"
    have step: "EchoContextHandleCanAcceptBytes e (Some p) w = Inr w'"
      unfolding w'_def cs_def by (rule flush_line [OF c k n_def])
    have le: "nat n \<le> Suc k"
      by (auto simp add: n_def)
    have rb': "receiveBuffer p w' = drop (nat n) buf"
      using c by (cases "0 < n") (simp_all add: w'_def receiveBuffer_def)
    have out': "outbound w' = outbound w @ take (nat n) buf"
      by (simp add: w'_def)
    have opened: "is_open p w'"
      using assms c i by (simp add: w'_def is_open_def)
    have inb: "inbound w' = inbound w"
      by (simp add: w'_def)
    have trace: "calls w' = calls w @ cs"
      by (simp add: w'_def)
    have bound: "line_boundary p w'"
    proof (cases "nat n = Suc k")
      case True
      from k(1,2) have "take (Suc k) buf = take k buf @ [10]"
        by (simp add: take_Suc_conv_app_nth)
      with True out' show ?thesis
        by (simp add: line_boundary_def)
    next
      case False
      with le have "nat n \<le> k"
        by simp
      with k(1,2) have "drop (nat n) buf ! (k - nat n) = 10" "k - nat n < length (drop (nat n) buf)"
        by simp_all
      then have "10 \<in> set (drop (nat n) buf)"
        by (metis nth_mem)
      with rb' show ?thesis
        by (simp add: line_boundary_def)
    qed
    have full: "count_list (receiveBuffer p w') 10 = count_list (receiveBuffer p w) 10 - 1"
      if "list_all accepted_all cs"
    proof -
      from that k(1) have "n = int (Suc k)"
        by (simp add: cs_def)
      then have "nat n = Suc k"
        by simp
      with rb' rb count_after_line [OF k] show ?thesis
        by simp
    qed
    from step opened inb rb rb' out' bound trace full show ?thesis
      by (intro exI [of _ w'] exI [of _ cs]) simp
  qed
qed

lemma read_step:
  assumes "is_open p w"
  shows "\<exists>w' cs. EchoContextHandleHasBytesAvailable e (Some p) w = Inr w' \<and> is_open p w' \<and>
     outbound w' @ receiveBuffer p w' @ inbound w' = outbound w @ receiveBuffer p w @ inbound w \<and>
     (line_boundary p w \<longrightarrow> line_boundary p w') \<and>
     calls w' = calls w @ cs"
proof -
  from assms obtain c buf t i out
    where c: "heap w p = Some c" "rcvdBytes c = Some buf" "timer c = Some t"
      "inStream c = Some i" "outStream c = Some out"
    by (auto simp add: is_open_def split: option.splits)
  have rb: "receiveBuffer p w = buf"
    using c by (simp add: receiveBuffer_def)
  define n where "n = (if io_ready e < 0 then 0
     else min (nat (io_ready e)) (min 2048 (length (inbound w))))"
  define d where "d = CFRunLoopTimerSetNextFireDate t (io_now e + kTimeOutInSeconds)"
  define w3 where "w3 = w\<lparr>heap := (heap w)(p \<mapsto> c\<lparr>rcvdBytes := Some (buf @ take n (inbound w))\<rparr>),
                  inbound := drop n (inbound w),
                  calls := calls w @ [CFRunLoopTimerSetNextFireDate t (io_now e + kTimeOutInSeconds)]\<rparr>"
  note rd = read_result [OF c n_def w3_def]
  show ?thesis
  proof (cases "n = 0")
    case True
    define w' where "w' = w\<lparr>calls := calls w @ [d]\<rparr>"
    from True rd have step: "EchoContextHandleHasBytesAvailable e (Some p) w = Inr w'"
      by (simp add: w'_def d_def)
    have same: "heap w' = heap w" "inbound w' = inbound w" "outbound w' = outbound w"
      "calls w' = calls w @ [d]"
      by (simp_all add: w'_def)
    from same have keep: "is_open p w' = is_open p w" "receiveBuffer p w' = receiveBuffer p w"
      "line_boundary p w' = line_boundary p w"
      by (simp_all add: is_open_def receiveBuffer_def line_boundary_def)
    from step same keep assms show ?thesis
      by (intro exI [of _ w'] exI [of _ "[d]"]) simp
  next
    case False
    have open3: "is_open p w3"
      using c by (simp add: w3_def is_open_def)
    have rb3: "receiveBuffer p w3 = buf @ take n (inbound w)"
      by (simp add: w3_def receiveBuffer_def)
    have io3: "inbound w3 = drop n (inbound w)" "outbound w3 = outbound w"
      "calls w3 = calls w @ [d]"
      by (simp_all add: w3_def d_def)
    have kept3: "outbound w3 @ receiveBuffer p w3 @ inbound w3 =
        outbound w @ receiveBuffer p w @ inbound w"
      by (simp add: rb3 io3 rb)
    have bound3: "line_boundary p w \<longrightarrow> line_boundary p w3"
      by (auto simp add: line_boundary_def rb3 rb io3)
    show ?thesis
    proof (cases "io_canAccept e")
      case False
      with \<open>n \<noteq> 0\<close> rd have "EchoContextHandleHasBytesAvailable e (Some p) w = Inr w3"
        by simp
      with open3 kept3 bound3 io3(3) show ?thesis
        by blast
    next
      case True
      with \<open>n \<noteq> 0\<close> rd have nested: "EchoContextHandleHasBytesAvailable e (Some p) w =
          EchoContextHandleCanAcceptBytes e (Some p) w3"
        by simp
      from flush_step [OF open3, of e] obtain w' cs
        where f: "EchoContextHandleCanAcceptBytes e (Some p) w3 = Inr w'" "is_open p w'"
          "inbound w' = inbound w3"
          "outbound w' @ receiveBuffer p w' = outbound w3 @ receiveBuffer p w3"
          "line_boundary p w3 \<longrightarrow> line_boundary p w'"
          "calls w' = calls w3 @ cs"
        by blast
      from f(3,4) kept3 have "outbound w' @ receiveBuffer p w' @ inbound w' =
          outbound w @ receiveBuffer p w @ inbound w"
        by (metis append_assoc)
      moreover from f(6) io3(3) have "calls w' = calls w @ (d # cs)"
        by simp
      ultimately show ?thesis
        using nested f(1,2,5) bound3 by (intro exI [of _ w'] exI [of _ "d # cs"]) simp
    qed
  qed
qed

lemma run_invariant:
  assumes "is_open p w"
  shows "\<exists>w' cs. run (Some p) evs w = Inr w' \<and> is_open p w' \<and>
     outbound w' @ receiveBuffer p w' @ inbound w' = outbound w @ receiveBuffer p w @ inbound w \<and>
     (line_boundary p w \<longrightarrow> line_boundary p w') \<and>
     calls w' = calls w @ cs"
  using assms
proof (induction evs arbitrary: w)
  case Nil
  then show ?case by simp
next
  case (Cons ev evs)
  have "\<exists>w1 cs1. (case ev of
              HasBytesAvailable e \<Rightarrow> EchoContextHandleHasBytesAvailable e (Some p) w
            | CanAcceptBytes e \<Rightarrow> EchoContextHandleCanAcceptBytes e (Some p) w) = Inr w1 \<and>
     is_open p w1 \<and>
     outbound w1 @ receiveBuffer p w1 @ inbound w1 = outbound w @ receiveBuffer p w @ inbound w \<and>
     (line_boundary p w \<longrightarrow> line_boundary p w1) \<and>
     calls w1 = calls w @ cs1"
  proof (cases ev)
    case (HasBytesAvailable e)
    with read_step [OF Cons.prems, of e] show ?thesis
      by simp
  next
    case (CanAcceptBytes e)
    from flush_step [OF Cons.prems, of e] obtain w1 cs1
      where f: "EchoContextHandleCanAcceptBytes e (Some p) w = Inr w1" "is_open p w1"
        "inbound w1 = inbound w"
        "outbound w1 @ receiveBuffer p w1 = outbound w @ receiveBuffer p w"
        "line_boundary p w \<longrightarrow> line_boundary p w1" "calls w1 = calls w @ cs1"
      by blast
    from f(3,4) have "outbound w1 @ receiveBuffer p w1 @ inbound w1 =
        outbound w @ receiveBuffer p w @ inbound w"
      by (metis append_assoc)
    with CanAcceptBytes f show ?thesis
      by auto
  qed
  then obtain w1 cs1 where s: "(case ev of
              HasBytesAvailable e \<Rightarrow> EchoContextHandleHasBytesAvailable e (Some p) w
            | CanAcceptBytes e \<Rightarrow> EchoContextHandleCanAcceptBytes e (Some p) w) = Inr w1"
    "is_open p w1"
    "outbound w1 @ receiveBuffer p w1 @ inbound w1 = outbound w @ receiveBuffer p w @ inbound w"
    "line_boundary p w \<longrightarrow> line_boundary p w1" "calls w1 = calls w @ cs1"
    by blast
  from Cons.IH [OF s(2)] obtain w' cs
    where r: "run (Some p) evs w1 = Inr w'" "is_open p w'"
      "outbound w' @ receiveBuffer p w' @ inbound w' =
         outbound w1 @ receiveBuffer p w1 @ inbound w1"
      "line_boundary p w1 \<longrightarrow> line_boundary p w'" "calls w' = calls w1 @ cs"
    by blast
  from s(1) r(1) have "run (Some p) (ev # evs) w = Inr w'"
    by simp
  moreover from s(5) r(5) have "calls w' = calls w @ (cs1 @ cs)"
    by simp
  ultimately show ?case
    using r(2,3,4) s(3,4) by (intro exI [of _ w'] exI [of _ "cs1 @ cs"]) simp
qed

lemma drain:
  assumes "is_open p w"
  shows "\<exists>w' cs. run (Some p) (map CanAcceptBytes es) w = Inr w' \<and> is_open p w' \<and>
     inbound w' = inbound w \<and>
     outbound w' @ receiveBuffer p w' = outbound w @ receiveBuffer p w \<and>
     (line_boundary p w \<longrightarrow> line_boundary p w') \<and>
     calls w' = calls w @ cs \<and>
     (list_all accepted_all cs \<longrightarrow>
        count_list (receiveBuffer p w') 10 = count_list (receiveBuffer p w) 10 - length es)"
  using assms
proof (induction es arbitrary: w)
  case Nil
  then show ?case by simp
next
  case (Cons e es)
  from flush_step [OF Cons.prems, of e] obtain w1 cs1
    where f: "EchoContextHandleCanAcceptBytes e (Some p) w = Inr w1" "is_open p w1"
      "inbound w1 = inbound w"
      "outbound w1 @ receiveBuffer p w1 = outbound w @ receiveBuffer p w"
      "line_boundary p w \<longrightarrow> line_boundary p w1" "calls w1 = calls w @ cs1"
      "list_all accepted_all cs1 \<longrightarrow>
        count_list (receiveBuffer p w1) 10 = count_list (receiveBuffer p w) 10 - 1"
    by blast
  from Cons.IH [OF f(2)] obtain w' cs
    where r: "run (Some p) (map CanAcceptBytes es) w1 = Inr w'" "is_open p w'"
      "inbound w' = inbound w1"
      "outbound w' @ receiveBuffer p w' = outbound w1 @ receiveBuffer p w1"
      "line_boundary p w1 \<longrightarrow> line_boundary p w'" "calls w' = calls w1 @ cs"
      "list_all accepted_all cs \<longrightarrow>
        count_list (receiveBuffer p w') 10 = count_list (receiveBuffer p w1) 10 - length es"
    by blast
  from f(1) r(1) have "run (Some p) (map CanAcceptBytes (e # es)) w = Inr w'"
    by simp
  moreover from f(6) r(6) have "calls w' = calls w @ (cs1 @ cs)"
    by simp
  moreover from f(7) r(7) have "list_all accepted_all (cs1 @ cs) \<longrightarrow>
        count_list (receiveBuffer p w') 10 = count_list (receiveBuffer p w) 10 - length (e # es)"
    by simp
  ultimately show ?case
    using r(2,3,4,5) f(3,4,5) by (intro exI [of _ w'] exI [of _ "cs1 @ cs"]) simp
qed

text \<open>C1: the echo. The context is open, its buffer and the outbound channel are empty, and
  \<open>inbound w\<close> is the byte sequence the peer sends. Any sequence \<open>evs\<close> of readable and
  writable events runs without a fault, whatever the reads return and whatever the outbound
  channel accepts; each read appends what it took to the buffer and flushes at once when
  the outbound stream says it can accept bytes. Let the reads have taken all the bytes, and
  let \<open>es\<close> be writable events that follow, at least as many as the input has terminators,
  at each of which the channel accepts all the bytes offered. They run without a fault too,
  and then the outbound channel holds exactly the lines of the input, byte for byte, in
  order, each once, and the buffer holds the unterminated rest.\<close>

theorem echo_correctness:
  assumes "is_open p w" "receiveBuffer p w = []" "outbound w = []"
  shows "\<exists>w1 w2. run (Some p) evs w = Inr w1 \<and>
     run (Some p) (map CanAcceptBytes es) w1 = Inr w2 \<and>
     (inbound w1 = [] \<and> count_list (inbound w) 10 \<le> length es \<and>
      list_all accepted_all (drop (length (calls w1)) (calls w2)) \<longrightarrow>
        outbound w2 = concat (lines_of (inbound w)) \<and>
        receiveBuffer p w2 = unterminated (inbound w))"
proof -
  from run_invariant [OF assms(1), of evs] obtain w1 cs1
    where r: "run (Some p) evs w = Inr w1" "is_open p w1"
      "outbound w1 @ receiveBuffer p w1 @ inbound w1 =
         outbound w @ receiveBuffer p w @ inbound w"
      "line_boundary p w \<longrightarrow> line_boundary p w1"
    by blast
  from drain [OF r(2), of es] obtain w2 cs
    where d: "run (Some p) (map CanAcceptBytes es) w1 = Inr w2"
      "inbound w2 = inbound w1"
      "outbound w2 @ receiveBuffer p w2 = outbound w1 @ receiveBuffer p w1"
      "line_boundary p w1 \<longrightarrow> line_boundary p w2" "calls w2 = calls w1 @ cs"
      "list_all accepted_all cs \<longrightarrow>
        count_list (receiveBuffer p w2) 10 = count_list (receiveBuffer p w1) 10 - length es"
    by blast
  have "outbound w2 = concat (lines_of (inbound w)) \<and>
        receiveBuffer p w2 = unterminated (inbound w)"
    if h: "inbound w1 = [] \<and> count_list (inbound w) 10 \<le> length es \<and>
      list_all accepted_all (drop (length (calls w1)) (calls w2))"
  proof -
    from r(3) assms(2,3) h have all: "outbound w1 @ receiveBuffer p w1 = inbound w"
      by simp
    then have "count_list (inbound w) 10 =
        count_list (outbound w1) 10 + count_list (receiveBuffer p w1) 10"
      by (metis count_list_append)
    with h have few: "count_list (receiveBuffer p w1) 10 \<le> length es"
      by simp
    from h d(5) have "list_all accepted_all cs"
      by simp
    with d(6) few have "count_list (receiveBuffer p w2) 10 = 0"
      by simp
    then have none: "10 \<notin> set (receiveBuffer p w2)"
      by (simp add: count_list_0_iff)
    from assms(3) have "line_boundary p w"
      by (simp add: line_boundary_def)
    with r(4) d(4) have "line_boundary p w2"
      by simp
    with none have ends: "outbound w2 = [] \<or> last (outbound w2) = 10"
      by (simp add: line_boundary_def)
    from d(3) all have "outbound w2 @ receiveBuffer p w2 = inbound w"
      by simp
    from lines_of_written [OF this none ends] show ?thesis
      by simp
  qed
  with r(1) d(1) show ?thesis
    by blast
qed

text \<open>The instance of C1: ten bytes, two lines and one more byte, taken by two reads; the
  flush inside the first read is a partial write of two bytes; two writable events drain
  the buffer.\<close>

theorem echo_correctness_witness:
  "is_open 0 (sample_world 1 [] [104, 105, 10, 116, 104, 101, 114, 101, 10, 120]) \<and>
   receiveBuffer 0 (sample_world 1 [] [104, 105, 10, 116, 104, 101, 114, 101, 10, 120]) = [] \<and>
   outbound (sample_world 1 [] [104, 105, 10, 116, 104, 101, 114, 101, 10, 120]) = [] \<and>
   (\<exists>w1 w2.
      run (Some 0)
        [HasBytesAvailable \<lparr>io_now = 1, io_ready = 4, io_canAccept = True, io_avail = 2\<rparr>,
         HasBytesAvailable \<lparr>io_now = 2, io_ready = 100, io_canAccept = False, io_avail = 0\<rparr>]
        (sample_world 1 [] [104, 105, 10, 116, 104, 101, 114, 101, 10, 120]) = Inr w1 \<and>
      run (Some 0)
        (map CanAcceptBytes
          [\<lparr>io_now = 3, io_ready = 0, io_canAccept = True, io_avail = 4096\<rparr>,
           \<lparr>io_now = 4, io_ready = 0, io_canAccept = True, io_avail = 4096\<rparr>]) w1 = Inr w2 \<and>
      inbound w1 = [] \<and>
      count_list (inbound (sample_world 1 [] [104, 105, 10, 116, 104, 101, 114, 101, 10, 120])) 10
        \<le> length [\<lparr>io_now = 3, io_ready = 0, io_canAccept = True, io_avail = 4096\<rparr>,
           \<lparr>io_now = 4, io_ready = 0, io_canAccept = True, io_avail = 4096\<rparr>] \<and>
      list_all accepted_all (drop (length (calls w1)) (calls w2)) \<and>
      outbound w1 = [104, 105] \<and>
      outbound w2 = [104, 105, 10, 116, 104, 101, 114, 101, 10] \<and>
      receiveBuffer 0 w2 = [120])"
proof -
  let ?sent = "[104, 105, 10, 116, 104, 101, 114, 101, 10, 120] :: UInt8 list"
  let ?w = "sample_world 1 [] ?sent"
  let ?evs = "[HasBytesAvailable \<lparr>io_now = 1, io_ready = 4, io_canAccept = True, io_avail = 2\<rparr>,
         HasBytesAvailable \<lparr>io_now = 2, io_ready = 100, io_canAccept = False, io_avail = 0\<rparr>]"
  let ?es = "[\<lparr>io_now = 3, io_ready = 0, io_canAccept = True, io_avail = 4096\<rparr>,
           \<lparr>io_now = 4, io_ready = 0, io_canAccept = True, io_avail = 4096\<rparr>]"
  let ?w1 = "\<lparr>heap = [0 \<mapsto> sample_context 1 [10, 116, 104, 101, 114, 101, 10, 120]],
      inbound = [], outbound = [104, 105],
      calls = [CFRunLoopTimerSetNextFireDate 2 61, CFRunLoopTimerSetNextFireDate 2 61,
               CFWriteStreamWriteCall 4 [104, 105, 10] 2,
               CFRunLoopTimerSetNextFireDate 2 62]\<rparr>"
  have h1: "is_open 0 ?w"
    by (simp add: is_open_def sample_world_def sample_context_def)
  have h2: "receiveBuffer 0 ?w = []"
    by (simp add: receiveBuffer_def sample_world_def sample_context_def)
  have h3: "outbound ?w = []"
    by (simp add: sample_world_def)
  from echo_correctness [OF h1 h2 h3, of ?evs ?es] obtain w1 w2
    where r1: "run (Some 0) ?evs ?w = Inr w1"
      and r2: "run (Some 0) (map CanAcceptBytes ?es) w1 = Inr w2"
      and imp: "inbound w1 = [] \<and> count_list (inbound ?w) 10 \<le> length ?es \<and>
          list_all accepted_all (drop (length (calls w1)) (calls w2)) \<longrightarrow>
            outbound w2 = concat (lines_of (inbound ?w)) \<and>
            receiveBuffer 0 w2 = unterminated (inbound ?w)"
    by blast
  have "run (Some 0) ?evs ?w = Inr ?w1"
    by (simp add: EchoContextHandleHasBytesAvailable_def EchoContextHandleCanAcceptBytes_def
        deref_def sample_world_def sample_context_def emit_def store_def CFReadStreamRead_def
        CFWriteStreamWrite_def CFDataAppendBytes_def CFDataDeleteBytes_def kTimeOutInSeconds_def)
  with r1 have w1: "w1 = ?w1"
    by simp
  have "run (Some 0) (map CanAcceptBytes ?es) ?w1 =
      Inr \<lparr>heap = [0 \<mapsto> sample_context 1 [120]],
        inbound = [], outbound = [104, 105, 10, 116, 104, 101, 114, 101, 10],
        calls = [CFRunLoopTimerSetNextFireDate 2 61, CFRunLoopTimerSetNextFireDate 2 61,
               CFWriteStreamWriteCall 4 [104, 105, 10] 2,
               CFRunLoopTimerSetNextFireDate 2 62,
               CFRunLoopTimerSetNextFireDate 2 63, CFWriteStreamWriteCall 4 [10] 1,
               CFRunLoopTimerSetNextFireDate 2 64,
               CFWriteStreamWriteCall 4 [116, 104, 101, 114, 101, 10] 6]\<rparr>"
    by (simp add: EchoContextHandleCanAcceptBytes_def
        deref_def sample_context_def emit_def store_def
        CFWriteStreamWrite_def CFDataDeleteBytes_def kTimeOutInSeconds_def)
  with r2 w1 have w2: "w2 = \<lparr>heap = [0 \<mapsto> sample_context 1 [120]],
        inbound = [], outbound = [104, 105, 10, 116, 104, 101, 114, 101, 10],
        calls = [CFRunLoopTimerSetNextFireDate 2 61, CFRunLoopTimerSetNextFireDate 2 61,
               CFWriteStreamWriteCall 4 [104, 105, 10] 2,
               CFRunLoopTimerSetNextFireDate 2 62,
               CFRunLoopTimerSetNextFireDate 2 63, CFWriteStreamWriteCall 4 [10] 1,
               CFRunLoopTimerSetNextFireDate 2 64,
               CFWriteStreamWriteCall 4 [116, 104, 101, 114, 101, 10] 6]\<rparr>"
    by simp
  have hyp: "inbound w1 = [] \<and> count_list (inbound ?w) 10 \<le> length ?es \<and>
          list_all accepted_all (drop (length (calls w1)) (calls w2))"
    by (simp add: w1 w2 sample_world_def)
  with imp have "outbound w2 = concat (lines_of (inbound ?w)) \<and>
            receiveBuffer 0 w2 = unterminated (inbound ?w)"
    by (rule mp)
  then have res: "outbound w2 = [104, 105, 10, 116, 104, 101, 114, 101, 10] \<and>
      receiveBuffer 0 w2 = [120]"
    by (simp add: sample_world_def lines_of_def unterminated_def)
  have "outbound w1 = [104, 105]"
    by (simp add: w1)
  with h1 h2 h3 r1 r2 hyp res show ?thesis
    by blast
qed

section \<open>Create\<close>

lemma create_without_memory:
  assumes "cr_allocated r = None"
  shows "EchoContextCreate al sock r w = Inr (None, w)"
  using assms by (simp add: EchoContextCreate_def release_null)

lemma create_with_memory:
  assumes "cr_allocated r = Some p"
    and "c = \<lparr>alloc = al, retainCount = 1, timer = None, inStream = cr_inStream r,
              outStream = cr_outStream r, rcvdBytes = None\<rparr>"
    and "pre = (case al of None \<Rightarrow> [] | Some x \<Rightarrow> [CFRetain (Allocator x)])
           @ [CFStreamCreatePairWithSocket al sock (cr_inStream r) (cr_outStream r)]
           @ (case (cr_inStream r, cr_outStream r) of
                (Some i, Some out) \<Rightarrow> [CFReadStreamSetProperty i] | _ \<Rightarrow> [])"
  shows "EchoContextCreate al sock r w =
     (if cr_inStream r \<noteq> None \<and> cr_outStream r \<noteq> None \<and> cr_data r
      then Inr (Some p, w\<lparr>heap := (heap w)(p \<mapsto> c\<lparr>rcvdBytes := Some []\<rparr>),
                          calls := calls w @ pre\<rparr>)
      else Inr (None, w\<lparr>heap := (heap w)(p := None),
                         calls := calls w @ pre @ close_calls c
                           @ [CFAllocatorDeallocate al p]
                           @ (case al of None \<Rightarrow> [] | Some x \<Rightarrow> [CFRelease (Allocator x)])\<rparr>))"
proof -
  define w3 where "w3 = w\<lparr>heap := (heap w)(p \<mapsto> c),
      calls := calls w @ (case al of None \<Rightarrow> [] | Some x \<Rightarrow> [CFRetain (Allocator x)])
           @ [CFStreamCreatePairWithSocket al sock (cr_inStream r) (cr_outStream r)]\<rparr>"
  have at3: "heap w3 p = Some c"
    by (simp add: w3_def)
  have one: "retainCount c = 1"
    by (simp add: assms(2))
  have free3: "reactor_holds c w3 = 0"
    by (simp add: reactor_holds_none registered_def registrations_def w3_def assms(2) Let_def
        split: option.split)
  note rel3 = release_last [OF at3 one free3]
  define w5 where "w5 = w3\<lparr>heap := (heap w3)(p \<mapsto> c), 
      calls := calls w3 @ (case (cr_inStream r, cr_outStream r) of
                (Some i, Some out) \<Rightarrow> [CFReadStreamSetProperty i] | _ \<Rightarrow> [])\<rparr>"
  have at5: "heap w5 p = Some c"
    by (simp add: w5_def)
  have free5: "reactor_holds c w5 = 0"
    by (simp add: reactor_holds_none registered_def registrations_def w5_def w3_def assms(2)
        Let_def split: option.split)
  note rel5 = release_last [OF at5 one free5]
  show ?thesis
  proof (cases "cr_inStream r \<noteq> None \<and> cr_outStream r \<noteq> None")
    case False
    have "EchoContextCreate al sock r w =
        (case EchoContextRelease (Some p) w3 of Inl f \<Rightarrow> Inl f | Inr w'' \<Rightarrow> Inr (None, w''))"
      using False assms(1) 
      by (cases w; cases al)
        (auto simp add: EchoContextCreate_def EchoContextRetain_def store_def emit_def w3_def
          assms(2) Let_def split: option.splits)
    with False rel3 show ?thesis
      by (cases w) (auto simp add: w3_def assms(2,3) split: option.splits)
  next
    case True
    then obtain i out where io: "cr_inStream r = Some i" "cr_outStream r = Some out"
      by blast
    show ?thesis
    proof (cases "cr_data r")
      case True
      with io assms(1) show ?thesis
        by (cases w; cases al)
          (auto simp add: EchoContextCreate_def EchoContextRetain_def store_def emit_def
            assms(2,3) Let_def)
    next
      case False
      have "EchoContextCreate al sock r w =
        (case EchoContextRelease (Some p) w5 of Inl f \<Rightarrow> Inl f | Inr w'' \<Rightarrow> Inr (None, w''))"
        using False assms(1) io
        by (cases w; cases al)
          (auto simp add: EchoContextCreate_def EchoContextRetain_def store_def emit_def w3_def
            w5_def assms(2) Let_def split: option.splits)
      with False rel5 io show ?thesis
        by (cases w) (auto simp add: w5_def w3_def assms(2,3) split: option.splits)
    qed
  qed
qed

lemma held_append: "held (xs @ ys) x = held xs x + held ys x"
  by (simp add: held_def)

lemma held_failed_create:
  assumes "c = \<lparr>alloc = al, retainCount = 1, timer = None, inStream = i,
              outStream = out, rcvdBytes = None\<rparr>"
  shows "held ((case al of None \<Rightarrow> [] | Some x \<Rightarrow> [CFRetain (Allocator x)])
           @ [CFStreamCreatePairWithSocket al sock i out]
           @ (case (i, out) of
                (Some i', Some out') \<Rightarrow> [CFReadStreamSetProperty i'] | _ \<Rightarrow> [])
           @ close_calls c
           @ [CFAllocatorDeallocate al p]
           @ (case al of None \<Rightarrow> [] | Some x \<Rightarrow> [CFRelease (Allocator x)])) x = 0"
  unfolding assms
  by (cases al; cases i; cases out; cases x) (auto simp add: held_def close_calls_def)

text \<open>C7: create returns, for every answer of the allocator and of CoreFoundation, a
  context exactly when the memory, both streams and the buffer could be had. The context it
  returns is the memory the allocator gave, with count \<open>1\<close>, the two streams of the pair
  made from the socket handle, an empty buffer and no timer; nothing else in the store has
  changed. When it returns \<open>NULL\<close> the store is as before (the memory has been given back)
  and, over the calls it made, every reference it took or created has been released.\<close>

theorem create_postconditions:
  assumes "\<forall>p. cr_allocated r = Some p \<longrightarrow> heap w p = None"
  shows "\<exists>ref w'. EchoContextCreate al sock r w = Inr (ref, w') \<and>
     (ref \<noteq> None) =
       (cr_allocated r \<noteq> None \<and> cr_inStream r \<noteq> None \<and> cr_outStream r \<noteq> None \<and> cr_data r) \<and>
     (\<forall>p. ref = Some p \<longrightarrow>
        cr_allocated r = Some p \<and>
        heap w' = (heap w)(p \<mapsto> \<lparr>alloc = al, retainCount = 1, timer = None,
                     inStream = cr_inStream r, outStream = cr_outStream r,
                     rcvdBytes = Some []\<rparr>) \<and>
        CFStreamCreatePairWithSocket al sock (cr_inStream r) (cr_outStream r) \<in> set (calls w')) \<and>
     (ref = None \<longrightarrow>
        heap w' = heap w \<and> (\<forall>x. held (drop (length (calls w)) (calls w')) x = 0))"
proof (cases "cr_allocated r")
  case None
  from create_without_memory [OF this, of al sock w] None show ?thesis
    by (simp add: held_def)
next
  case (Some p)
  define c where "c = \<lparr>alloc = al, retainCount = 1, timer = None, inStream = cr_inStream r,
              outStream = cr_outStream r, rcvdBytes = None\<rparr>"
  define pre where "pre = (case al of None \<Rightarrow> [] | Some x \<Rightarrow> [CFRetain (Allocator x)])
           @ [CFStreamCreatePairWithSocket al sock (cr_inStream r) (cr_outStream r)]
           @ (case (cr_inStream r, cr_outStream r) of
                (Some i, Some out) \<Rightarrow> [CFReadStreamSetProperty i] | _ \<Rightarrow> [])"
  note res = create_with_memory [OF Some c_def pre_def, of w]
  from assms Some have "heap w p = None"
    by simp
  then have fresh: "(heap w)(p := None) = heap w"
    by (metis fun_upd_triv)
  show ?thesis
  proof (cases "cr_inStream r \<noteq> None \<and> cr_outStream r \<noteq> None \<and> cr_data r")
    case True
    have "CFStreamCreatePairWithSocket al sock (cr_inStream r) (cr_outStream r) \<in> set pre"
      by (simp add: pre_def)
    moreover have "EchoContextCreate al sock r w =
        Inr (Some p, w\<lparr>heap := (heap w)(p \<mapsto> c\<lparr>rcvdBytes := Some []\<rparr>),
                          calls := calls w @ pre\<rparr>)"
      unfolding res by (rule if_P [OF True])
    ultimately show ?thesis
      using True Some by (simp add: c_def)
  next
    case False
    have "held (pre @ close_calls c @ [CFAllocatorDeallocate al p]
        @ (case al of None \<Rightarrow> [] | Some x \<Rightarrow> [CFRelease (Allocator x)])) x = 0" for x
      using held_failed_create [OF c_def, of sock p x] by (simp add: pre_def)
    moreover have "EchoContextCreate al sock r w =
        Inr (None, w\<lparr>heap := (heap w)(p := None),
                         calls := calls w @ pre @ close_calls c
                           @ [CFAllocatorDeallocate al p]
                           @ (case al of None \<Rightarrow> [] | Some x \<Rightarrow> [CFRelease (Allocator x)])\<rparr>)"
      unfolding res by (rule if_not_P [OF False])
    ultimately show ?thesis
      using False Some fresh by simp
  qed
qed

text \<open>The instance of C7: a pair with no outbound stream, where the inbound stream is
  closed and released and the memory freed, and a complete pair.\<close>

theorem create_postconditions_witness:
  "cr_allocated \<lparr>cr_allocated = Some 5, cr_inStream = Some 3, cr_outStream = None,
        cr_data = True\<rparr> = Some 5 \<and>
   cr_allocated \<lparr>cr_allocated = Some 5, cr_inStream = Some 3, cr_outStream = Some 4,
        cr_data = True\<rparr> = Some 5 \<and>
   heap (sample_world 1 [] []) 5 = None \<and>
   EchoContextCreate (Some 1) 9
       \<lparr>cr_allocated = Some 5, cr_inStream = Some 3, cr_outStream = None, cr_data = True\<rparr>
       (sample_world 1 [] []) =
     Inr (None, \<lparr>heap = [0 \<mapsto> sample_context 1 []], inbound = [], outbound = [],
       calls = [CFRetain (Allocator 1), CFStreamCreatePairWithSocket (Some 1) 9 (Some 3) None,
         CFReadStreamSetClient 3 False, CFReadStreamUnscheduleFromRunLoop 3,
         CFReadStreamClose 3, CFRelease (ReadStream 3),
         CFAllocatorDeallocate (Some 1) 5, CFRelease (Allocator 1)]\<rparr>) \<and>
   EchoContextCreate (Some 1) 9
       \<lparr>cr_allocated = Some 5, cr_inStream = Some 3, cr_outStream = Some 4, cr_data = True\<rparr>
       (sample_world 1 [] []) =
     Inr (Some 5, \<lparr>heap = [0 \<mapsto> sample_context 1 [],
          5 \<mapsto> \<lparr>alloc = Some 1, retainCount = 1, timer = None, inStream = Some 3,
                 outStream = Some 4, rcvdBytes = Some []\<rparr>],
       inbound = [], outbound = [],
       calls = [CFRetain (Allocator 1), CFStreamCreatePairWithSocket (Some 1) 9 (Some 3) (Some 4),
         CFReadStreamSetProperty 3]\<rparr>)"
proof -
  let ?bad = "\<lparr>cr_allocated = Some 5, cr_inStream = Some 3, cr_outStream = None, cr_data = True\<rparr>"
  let ?good = "\<lparr>cr_allocated = Some 5, cr_inStream = Some 3, cr_outStream = Some 4, cr_data = True\<rparr>"
  have f1: "\<forall>p. cr_allocated ?bad = Some p \<longrightarrow> heap (sample_world 1 [] []) p = None"
    by (simp add: sample_world_def)
  have f2: "\<forall>p. cr_allocated ?good = Some p \<longrightarrow> heap (sample_world 1 [] []) p = None"
    by (simp add: sample_world_def)
  have bad: "EchoContextCreate (Some 1) 9 ?bad (sample_world 1 [] []) =
     Inr (None, \<lparr>heap = [0 \<mapsto> sample_context 1 []], inbound = [], outbound = [],
       calls = [CFRetain (Allocator 1), CFStreamCreatePairWithSocket (Some 1) 9 (Some 3) None,
         CFReadStreamSetClient 3 False, CFReadStreamUnscheduleFromRunLoop 3,
         CFReadStreamClose 3, CFRelease (ReadStream 3),
         CFAllocatorDeallocate (Some 1) 5, CFRelease (Allocator 1)]\<rparr>)"
    using create_postconditions [OF f1, of "Some 1" 9]
    by (simp add: EchoContextCreate_def EchoContextRetain_def release_eq close_eq
        leave_read_def leave_write_def leave_timer_def drop_timer_def registered_def
        registrations_def deref_def store_def emit_def sample_world_def Let_def)
  have good: "EchoContextCreate (Some 1) 9 ?good (sample_world 1 [] []) =
     Inr (Some 5, \<lparr>heap = [0 \<mapsto> sample_context 1 [],
          5 \<mapsto> \<lparr>alloc = Some 1, retainCount = 1, timer = None, inStream = Some 3,
                 outStream = Some 4, rcvdBytes = Some []\<rparr>],
       inbound = [], outbound = [],
       calls = [CFRetain (Allocator 1), CFStreamCreatePairWithSocket (Some 1) 9 (Some 3) (Some 4),
         CFReadStreamSetProperty 3]\<rparr>)"
    using create_postconditions [OF f2, of "Some 1" 9]
    by (simp add: EchoContextCreate_def EchoContextRetain_def store_def emit_def
        sample_world_def Let_def)
  have "heap (sample_world 1 [] []) 5 = None"
    by (simp add: sample_world_def)
  with bad good show ?thesis
    by simp
qed

end
